theory Spec2Isabelle
  imports Complex_Main "HOL-Library.AList"
begin

section \<open>Python values and errors\<close>

text \<open>
  The exceptions the modelled code can raise. A function that can raise returns
  a pair: what it raised or returned, and the state it left behind.
\<close>

datatype py_error = ValueError | KeyError | TypeError | AttributeError | IndexError | StoreError

type_synonym ('a, 's) res = "(py_error + 'a) \<times> 's"

text \<open>
  The values a property map or a Cypher parameter holds. A \<open>datetime\<close> is a point on
  a time line. A dict with string keys is an association list in insertion order.
\<close>

datatype val =
    VNull
  | VBool bool
  | VInt int
  | VStr string
  | VDate int
  | VList "val list"
  | VDict "(string \<times> val) list"

type_synonym pdict = "(string \<times> val) list"

text \<open>Python truth value of a value: \<open>if v:\<close>.\<close>

fun truthy :: "val \<Rightarrow> bool" where
  "truthy VNull = False"
| "truthy (VBool b) = b"
| "truthy (VInt i) = (i \<noteq> 0)"
| "truthy (VStr s) = (s \<noteq> [])"
| "truthy (VDate d) = True"
| "truthy (VList xs) = (xs \<noteq> [])"
| "truthy (VDict kvs) = (kvs \<noteq> [])"

text \<open>\<open>d[k]\<close> on a dict raises \<open>KeyError\<close> on a missing key; \<open>d.get(k)\<close> gives \<open>None\<close>.\<close>

definition py_getitem :: "pdict \<Rightarrow> string \<Rightarrow> py_error + val" where
  "py_getitem d k = (case map_of d k of None \<Rightarrow> Inl KeyError | Some v \<Rightarrow> Inr v)"

definition py_get :: "pdict \<Rightarrow> string \<Rightarrow> val" where
  "py_get d k = (case map_of d k of None \<Rightarrow> VNull | Some v \<Rightarrow> v)"

text \<open>
  \<open>a == b\<close>: a bool equals the integer it stands for; other values are equal when
  they are the same value.
\<close>

fun py_norm :: "val \<Rightarrow> val" where
  "py_norm (VBool b) = VInt (if b then 1 else 0)"
| "py_norm (VList xs) = VList (map py_norm xs)"
| "py_norm v = v"

definition py_eq :: "val \<Rightarrow> val \<Rightarrow> bool" where
  "py_eq a b = (py_norm a = py_norm b)"

text \<open>
  \<open>a > b\<close>: defined between numbers, between datetimes, between strings (by code
  point) and between lists (at the first position where they differ); a
  \<open>TypeError\<close> otherwise.
\<close>

fun str_gt :: "string \<Rightarrow> string \<Rightarrow> bool" where
  "str_gt [] t = False"
| "str_gt (c # s) [] = True"
| "str_gt (c # s) (d # t) =
     (if c = d then str_gt s t else (of_char c :: nat) > of_char d)"

fun py_gt :: "val \<Rightarrow> val \<Rightarrow> py_error + bool" where
  "py_gt (VInt i) (VInt j) = Inr (i > j)"
| "py_gt (VInt i) (VBool c) = Inr (i > (if c then 1 else 0))"
| "py_gt (VBool b) (VInt j) = Inr ((if b then 1 else 0) > j)"
| "py_gt (VBool b) (VBool c) = Inr (b \<and> \<not> c)"
| "py_gt (VDate d) (VDate e) = Inr (d > e)"
| "py_gt (VStr s) (VStr t) = Inr (str_gt s t)"
| "py_gt (VList []) (VList ys) = Inr False"
| "py_gt (VList (x # xs)) (VList []) = Inr True"
| "py_gt (VList (x # xs)) (VList (y # ys)) =
     (if py_eq x y then py_gt (VList xs) (VList ys) else py_gt x y)"
| "py_gt a b = Inl TypeError"

text \<open>What \<open>for x in v\<close> iterates over.\<close>

fun py_iter :: "val \<Rightarrow> py_error + val list" where
  "py_iter (VList xs) = Inr xs"
| "py_iter (VStr s) = Inr (map (\<lambda>c. VStr [c]) s)"
| "py_iter (VDict kvs) = Inr (map (\<lambda>kv. VStr (fst kv)) kvs)"
| "py_iter v = Inl TypeError"

text \<open>\<open>a += " " + b\<close>, as the source builds the text to embed.\<close>

fun py_add_spaced :: "val \<Rightarrow> val \<Rightarrow> py_error + val" where
  "py_add_spaced (VStr a) (VStr b) = Inr (VStr (a @ '' '' @ b))"
| "py_add_spaced (VList xs) (VStr b) = Inr (VList (xs @ map (\<lambda>c. VStr [c]) ('' '' @ b)))"
| "py_add_spaced a b = Inl TypeError"

section \<open>The in-process cache\<close>

text \<open>
  \<open>LRUCache\<close>: an \<open>OrderedDict\<close> from key to (value, expiry time), oldest entry
  first, with a capacity and a time to live. The reading of \<open>time.time()\<close> is an
  argument of each operation.
\<close>

record ('k, 'v) lru_cache =
  entries :: "('k \<times> 'v \<times> real) list"
  max_size :: int
  ttl :: real

definition od_pop :: "'k \<Rightarrow> ('k \<times> 'a) list \<Rightarrow> ('k \<times> 'a) list" where
  "od_pop key xs = filter (\<lambda>e. fst e \<noteq> key) xs"

definition lru_get :: "real \<Rightarrow> 'k \<Rightarrow> ('k, 'v) lru_cache \<Rightarrow> 'v option \<times> ('k, 'v) lru_cache" where
  "lru_get now key c =
     (case map_of (entries c) key of
        None \<Rightarrow> (None, c)
      | Some (v, expire) \<Rightarrow>
          (if expire > now
           then (Some v, c\<lparr>entries := od_pop key (entries c) @ [(key, v, expire)]\<rparr>)
           else (None, c\<lparr>entries := od_pop key (entries c)\<rparr>)))"

definition lru_set :: "real \<Rightarrow> 'k \<Rightarrow> 'v \<Rightarrow> ('k, 'v) lru_cache \<Rightarrow> (unit, ('k, 'v) lru_cache) res" where
  "lru_set now key v c =
     (let expire = now + ttl c in
      if map_of (entries c) key \<noteq> None
      then (Inr (), c\<lparr>entries := od_pop key (entries c) @ [(key, v, expire)]\<rparr>)
      else if int (length (entries c)) \<ge> max_size c
      then (case entries c of
              [] \<Rightarrow> (Inl KeyError, c)
            | _ # rest \<Rightarrow> (Inr (), c\<lparr>entries := rest @ [(key, v, expire)]\<rparr>))
      else (Inr (), c\<lparr>entries := entries c @ [(key, v, expire)]\<rparr>))"

definition lru_delete :: "'k \<Rightarrow> ('k, 'v) lru_cache \<Rightarrow> ('k, 'v) lru_cache" where
  "lru_delete key c = (if map_of (entries c) key \<noteq> None then c\<lparr>entries := od_pop key (entries c)\<rparr> else c)"

definition lru_clear :: "('k, 'v) lru_cache \<Rightarrow> ('k, 'v) lru_cache" where
  "lru_clear c = c\<lparr>entries := []\<rparr>"


section \<open>The graph store\<close>

text \<open>
  The labelled property graph behind \<open>graph_db\<close>: nodes and relationships with an
  identity of their own, in the order the store returns them, and the log of the queries
  the store was sent. An \<open>id\<close> is an ordinary property of a node.
\<close>

record node =
  nid :: nat
  labels :: "string list"
  props :: pdict

record rel =
  rid :: nat
  rtype :: string
  src :: nat
  tgt :: nat
  rprops :: pdict

text \<open>
  A query sent to the store: the name of the Cypher text in the source, the parts the
  source formats into it, and its parameters.
\<close>

datatype query = Query string "string list" pdict

record graph_db =
  db_nodes :: "node list"
  db_rels :: "rel list"
  next_id :: nat
  qlog :: "query list"

definition logq :: "query \<Rightarrow> graph_db \<Rightarrow> graph_db" where
  "logq q db = db\<lparr>qlog := qlog db @ [q]\<rparr>"

text \<open>
  Cypher on values: \<open>n.k\<close> is null when the node has no property \<open>k\<close>, and a dotted
  path below a property reads into a value no stored node has. \<open>a = b\<close> holds only
  between equal values that are not null. Setting a property to null removes it.
\<close>

definition node_prop :: "node \<Rightarrow> string \<Rightarrow> val" where
  "node_prop n k = (if CHR ''.'' \<in> set k then VNull else py_get (props n) k)"

definition cy_eq :: "val \<Rightarrow> val \<Rightarrow> bool" where
  "cy_eq a b = (a \<noteq> VNull \<and> b \<noteq> VNull \<and> a = b)"

definition has_label :: "string \<Rightarrow> node \<Rightarrow> bool" where
  "has_label l n = (l \<in> set (labels n))"

definition set_prop :: "pdict \<Rightarrow> string \<times> val \<Rightarrow> pdict" where
  "set_prop ps kv = (if snd kv = VNull then AList.delete (fst kv) ps else AList.update (fst kv) (snd kv) ps)"

definition set_props :: "pdict \<Rightarrow> pdict \<Rightarrow> pdict" where
  "set_props ps kvs = foldl set_prop ps kvs"

definition node_of :: "graph_db \<Rightarrow> nat \<Rightarrow> node option" where
  "node_of db i = find (\<lambda>n. nid n = i) (db_nodes db)"

definition nodes_with_id :: "graph_db \<Rightarrow> val \<Rightarrow> node list" where
  "nodes_with_id db v = filter (\<lambda>n. cy_eq (node_prop n ''id'') v) (db_nodes db)"

text \<open>
  \<open>CREATE (a)-[r:T $props]->(b)\<close> for each pair of matched end points, in order.
\<close>

fun create_rels :: "string \<Rightarrow> pdict \<Rightarrow> (nat \<times> nat) list \<Rightarrow> graph_db \<Rightarrow> rel list \<times> graph_db" where
  "create_rels t ps [] db = ([], db)"
| "create_rels t ps ((a, b) # pairs) db =
     (let r = \<lparr>rid = next_id db, rtype = t, src = a, tgt = b, rprops = set_props [] ps\<rparr>;
          (rs, db') = create_rels t ps pairs (db\<lparr>db_rels := db_rels db @ [r], next_id := Suc (next_id db)\<rparr>)
      in (r # rs, db'))"

section \<open>The schema and the graph store adapter\<close>

record rel_schema =
  valid_sources :: "string list"
  valid_targets :: "string list"
  properties :: "string list"

definition NODE_TYPES :: "(string \<times> (string \<times> string) list) list" where
  "NODE_TYPES = [
     (''User'', [(''id'', ''string''), (''name'', ''string''), (''email'', ''string''),
         (''created_at'', ''datetime''), (''profile'', ''json''), (''first_name'', ''string''),
         (''last_name'', ''string''), (''resume_summary'', ''string'')]),
     (''Person'', [(''id'', ''string''), (''name'', ''string''), (''email'', ''string''),
         (''phone'', ''string''), (''title'', ''string''), (''organization_id'', ''string''),
         (''first_contact_date'', ''datetime''), (''last_contact_date'', ''datetime''),
         (''source'', ''string''), (''embedding_id'', ''string''), (''created_at'', ''datetime'')]),
     (''Organization'', [(''id'', ''string''), (''name'', ''string''), (''type'', ''string''),
         (''website'', ''string''), (''description'', ''string''), (''location'', ''string''),
         (''embedding_id'', ''string''), (''created_at'', ''datetime'')]),
     (''Skill'', [(''id'', ''string''), (''name'', ''string''), (''category'', ''string''),
         (''created_at'', ''datetime'')]),
     (''Certification'', [(''id'', ''string''), (''name'', ''string''), (''issuer'', ''string''),
         (''issue_date'', ''datetime''), (''expiry_date'', ''datetime''),
         (''created_at'', ''datetime'')]),
     (''Language'', [(''id'', ''string''), (''name'', ''string''), (''proficiency'', ''string''),
         (''created_at'', ''datetime'')]),
     (''Message'', [(''id'', ''string''), (''content'', ''string''), (''sender_id'', ''string''),
         (''channel_id'', ''string''), (''thread_id'', ''string''), (''timestamp'', ''datetime''),
         (''read_status'', ''string''), (''has_attachments'', ''boolean''),
         (''sentiment'', ''float''), (''intent'', ''string''), (''is_actionable'', ''boolean''),
         (''reply_to_id'', ''string''), (''embedding_id'', ''string''),
         (''created_at'', ''datetime'')]),
     (''Event'', [(''id'', ''string''), (''title'', ''string''), (''description'', ''string''),
         (''start_time'', ''datetime''), (''end_time'', ''datetime''), (''location'', ''string''),
         (''embedding_id'', ''string''), (''created_at'', ''datetime'')]),
     (''Location'', [(''id'', ''string''), (''name'', ''string''), (''address'', ''string''),
         (''coordinates'', ''list[float]''), (''type'', ''string''),
         (''embedding_id'', ''string'')]),
     (''Task'', [(''id'', ''string''), (''title'', ''string''), (''status'', ''string''),
         (''created_date'', ''datetime''), (''source_type'', ''string''),
         (''description'', ''string''), (''priority'', ''string''), (''due_date'', ''datetime''),
         (''completion_date'', ''datetime''), (''horizon'', ''string''),
         (''recurrence'', ''string''), (''estimated_time'', ''float''),
         (''tags'', ''list[string]''), (''confidence_score'', ''float''),
         (''assignee_id'', ''string''), (''creator_id'', ''string''),
         (''is_actionable'', ''boolean''), (''reminder_date'', ''datetime''),
         (''embedding_id'', ''string''), (''created_at'', ''datetime'')]),
     (''Channel'', [(''id'', ''string''), (''name'', ''string''), (''type'', ''string''),
         (''provider'', ''string''), (''is_connected'', ''boolean''),
         (''connection_status'', ''string''), (''last_synced'', ''datetime''),
         (''credentials_id'', ''string''), (''settings'', ''json''),
         (''embedding_id'', ''string''), (''created_at'', ''datetime'')]),
     (''Thread'', [(''id'', ''string''), (''title'', ''string''), (''status'', ''string''),
         (''created_date'', ''datetime''), (''last_updated'', ''datetime''),
         (''channel_id'', ''string''), (''external_id'', ''string''),
         (''participants_count'', ''int''), (''message_count'', ''int''),
         (''embedding_id'', ''string''), (''created_at'', ''datetime'')])
   ]"

definition RELATIONSHIP_TYPES :: "(string \<times> rel_schema) list" where
  "RELATIONSHIP_TYPES = [
     (''USER_KNOWS'', \<lparr>valid_sources = [''User''], valid_targets = [''Person''],
        properties = [''relationship_strength'', ''first_contact_date'', ''last_contact_date'',
            ''communication_frequency'', ''channels'', ''context_tags'']\<rparr>),
     (''USER_CONNECTED_TO'', \<lparr>valid_sources = [''User''], valid_targets = [''Organization''],
        properties = [''connection_type'', ''start_date'', ''active'', ''context_tags'']\<rparr>),
     (''USER_COMMUNICATES_VIA'', \<lparr>valid_sources = [''User''], valid_targets = [''Channel''],
        properties = [''frequency'', ''last_used'', ''primary'', ''usage_pattern'']\<rparr>),
     (''USER_PARTICIPATES_IN'', \<lparr>valid_sources = [''User''], valid_targets = [''Event''],
        properties = [''role'', ''status'', ''importance'', ''recurrence'']\<rparr>),
     (''USER_VISITS'', \<lparr>valid_sources = [''User''], valid_targets = [''Location''],
        properties = [''visit_frequency'', ''last_visit'', ''context_tags'',
            ''typical_duration'']\<rparr>),
     (''USER_MANAGES'', \<lparr>valid_sources = [''User''], valid_targets = [''Task''],
        properties = [''assignment_date'', ''reminder_set'', ''priority_override'']\<rparr>),
     (''CONNECTED_TO'', \<lparr>valid_sources = [''Person''], valid_targets = [''Person''],
        properties = [''relationship_context'', ''inferred_closeness'',
            ''communication_frequency'']\<rparr>),
     (''AFFILIATED_WITH'', \<lparr>valid_sources = [''Person''], valid_targets = [''Organization''],
        properties = [''affiliation_type'', ''inferred_role'', ''context_tags'']\<rparr>),
     (''PARTICIPATES_IN'', \<lparr>valid_sources = [''Person''], valid_targets = [''Event''],
        properties = [''role'', ''status'', ''invited_by'']\<rparr>),
     (''LOCATED_AT'', \<lparr>valid_sources = [''Person'', ''Organization'', ''Event''],
         valid_targets = [''Location''],
        properties = [''relationship_type'', ''frequency'', ''context_tags'']\<rparr>),
     (''AUTHORED'', \<lparr>valid_sources = [''Person'', ''User''], valid_targets = [''Message''],
        properties = [''timestamp'', ''channel_id'', ''message_type'', ''context_tags'']\<rparr>),
     (''RECEIVED'', \<lparr>valid_sources = [''Person'', ''User''], valid_targets = [''Message''],
        properties = [''timestamp'', ''read_status'', ''delivery_status'']\<rparr>),
     (''MENTIONED_IN'', \<lparr>valid_sources = [''Person'', ''Organization'', ''Location'',
         ''Event''], valid_targets = [''Message''],
        properties = [''mention_context'', ''sentiment'', ''significance'']\<rparr>),
     (''RELATED_TO'', \<lparr>valid_sources = [''Task''], valid_targets = [''Event'', ''Message'',
         ''Organization'', ''Location''],
        properties = [''relationship_type'', ''relevance_score'']\<rparr>),
     (''SAME_AS'', \<lparr>valid_sources = [''Person'', ''Organization''],
         valid_targets = [''Person'', ''Organization''],
        properties = [''match_confidence'', ''evidence_sources'', ''channels'']\<rparr>),
     (''EXTRACTED_FROM'', \<lparr>valid_sources = [''Task''], valid_targets = [''Message'',
         ''Event''],
        properties = [''extraction_method'', ''confidence_score'', ''extracted_text'']\<rparr>),
     (''ASSIGNED_TO'', \<lparr>valid_sources = [''Task''], valid_targets = [''Person''],
        properties = [''assignment_date'', ''status'', ''assigned_by'']\<rparr>),
     (''DEPENDS_ON'', \<lparr>valid_sources = [''Task''], valid_targets = [''Task''],
        properties = [''dependency_type'', ''blocking'']\<rparr>),
     (''MODIFIED_BY'', \<lparr>valid_sources = [''Task''], valid_targets = [''User''],
        properties = [''modification_date'', ''modification_type'', ''previous_state'']\<rparr>),
     (''HAS_SUBTASK'', \<lparr>valid_sources = [''Task''], valid_targets = [''Task''],
        properties = [''creation_date'', ''completion_dependency'']\<rparr>),
     (''HAS_SKILL'', \<lparr>valid_sources = [''User''], valid_targets = [''Skill''],
        properties = [''proficiency'', ''years_experience'', ''last_used'']\<rparr>),
     (''HAS_CERTIFICATION'', \<lparr>valid_sources = [''User''],
         valid_targets = [''Certification''],
        properties = [''issue_date'', ''expiry_date'', ''verification_url'']\<rparr>),
     (''SPEAKS'', \<lparr>valid_sources = [''User''], valid_targets = [''Language''],
        properties = [''proficiency'', ''is_native'']\<rparr>),
     (''WORKED_AT'', \<lparr>valid_sources = [''User''], valid_targets = [''Organization''],
        properties = [''title'', ''start_date'', ''end_date'', ''location'',
            ''skills_used'']\<rparr>),
     (''LEARNT_AT'', \<lparr>valid_sources = [''User''], valid_targets = [''Organization''],
        properties = [''degree'', ''start_date'', ''end_date'', ''location'',
            ''description'']\<rparr>)
   ]"

text \<open>
  \<open>Neo4jWrapper\<close>. \<open>create_node\<close> and \<open>merge_node\<close> check the label and every
  property name against \<open>NODE_TYPES\<close> before the session is opened.
\<close>

definition create_node :: "string \<Rightarrow> pdict \<Rightarrow> graph_db \<Rightarrow> (node option, graph_db) res" where
  "create_node label ps db =
     (case map_of NODE_TYPES label of
        None \<Rightarrow> (Inl ValueError, db)
      | Some allowed \<Rightarrow>
          if list_ex (\<lambda>prop. map_of allowed prop = None) (map fst ps) then (Inl ValueError, db)
          else
            (let n = \<lparr>nid = next_id db, labels = [label], props = set_props [] ps\<rparr>;
                 db' = logq (Query ''create_node'' [label] [(''properties'', VDict ps)]) db
             in (Inr (Some n), db'\<lparr>db_nodes := db_nodes db' @ [n], next_id := Suc (next_id db')\<rparr>)))"

text \<open>
  \<open>MERGE (n:label {id: $id}) SET n += $properties RETURN n\<close>: every node of the label
  with that id is updated; when there is none, one is created. The store refuses to
  merge on a null id.
\<close>

definition merge_node :: "string \<Rightarrow> pdict \<Rightarrow> graph_db \<Rightarrow> (node option, graph_db) res" where
  "merge_node label ps db =
     (case map_of NODE_TYPES label of
        None \<Rightarrow> (Inl ValueError, db)
      | Some allowed \<Rightarrow>
          if list_ex (\<lambda>prop. map_of allowed prop = None) (map fst ps) then (Inl ValueError, db)
          else
            (case py_getitem ps ''id'' of
               Inl e \<Rightarrow> (Inl e, db)
             | Inr i \<Rightarrow>
                 (let db' = logq (Query ''merge_node'' [label] [(''id'', i), (''properties'', VDict ps)]) db;
                      hit = (\<lambda>n. has_label label n \<and> cy_eq (node_prop n ''id'') i)
                  in if i = VNull then (Inl StoreError, db')
                     else if list_ex hit (db_nodes db')
                     then (let upd = (\<lambda>n. if hit n then n\<lparr>props := set_props (props n) ps\<rparr> else n)
                           in (Inr (find hit (map upd (db_nodes db'))),
                               db'\<lparr>db_nodes := map upd (db_nodes db')\<rparr>))
                     else (let n = \<lparr>nid = next_id db', labels = [label],
                                     props = set_props [(''id'', i)] ps\<rparr>
                           in (Inr (Some n),
                               db'\<lparr>db_nodes := db_nodes db' @ [n], next_id := Suc (next_id db')\<rparr>)))))"

text \<open>
  The checks of \<open>create_relationship\<close> and \<open>merge_relationship\<close>: the relationship
  type, the source and target labels, and every property name of the relationship.
\<close>

definition validate_relationship :: "string \<Rightarrow> string \<Rightarrow> string \<Rightarrow> pdict \<Rightarrow> bool" where
  "validate_relationship from_label to_label rel_type rel_props =
     (case map_of RELATIONSHIP_TYPES rel_type of
        None \<Rightarrow> False
      | Some sch \<Rightarrow>
          \<not> (from_label \<notin> set (valid_sources sch) \<or> to_label \<notin> set (valid_targets sch))
          \<and> \<not> list_ex (\<lambda>prop. prop \<notin> set (properties sch)) (map fst rel_props))"

text \<open>The pairs \<open>MATCH (a:from_label), (b:to_label) WHERE a.id = $from_id AND b.id = $to_id\<close>.\<close>

definition match_pairs :: "string \<Rightarrow> string \<Rightarrow> val \<Rightarrow> val \<Rightarrow> graph_db \<Rightarrow> (nat \<times> nat) list" where
  "match_pairs from_label to_label from_id to_id db =
     List.product
       (map nid (filter (has_label from_label) (nodes_with_id db from_id)))
       (map nid (filter (has_label to_label) (nodes_with_id db to_id)))"

definition create_relationship ::
  "string \<Rightarrow> string \<Rightarrow> string \<Rightarrow> pdict \<Rightarrow> pdict \<Rightarrow> pdict \<Rightarrow> graph_db \<Rightarrow> (rel option, graph_db) res" where
  "create_relationship from_label to_label rel_type from_props to_props rel_props db =
     (if \<not> validate_relationship from_label to_label rel_type rel_props then (Inl ValueError, db)
      else
        (case py_getitem from_props ''id'' of
           Inl e \<Rightarrow> (Inl e, db)
         | Inr from_id \<Rightarrow>
             (case py_getitem to_props ''id'' of
                Inl e \<Rightarrow> (Inl e, db)
              | Inr to_id \<Rightarrow>
                  (let db' = logq (Query ''create_relationship'' [from_label, to_label, rel_type]
                               [(''from_id'', from_id), (''to_id'', to_id), (''rel_props'', VDict rel_props)]) db;
                       (rs, db'') = create_rels rel_type rel_props
                                      (match_pairs from_label to_label from_id to_id db') db'
                   in (Inr (case rs of [] \<Rightarrow> None | r # _ \<Rightarrow> Some r), db'')))))"

text \<open>
  \<open>MERGE (a)-[r:T]->(b) SET r += $rel_props\<close> for each matched pair: the relationships
  of that type between the pair are updated, or one is created.
\<close>

fun merge_rels :: "string \<Rightarrow> pdict \<Rightarrow> (nat \<times> nat) list \<Rightarrow> graph_db \<Rightarrow> graph_db" where
  "merge_rels t ps [] db = db"
| "merge_rels t ps ((a, b) # pairs) db =
     (let hit = (\<lambda>r. rtype r = t \<and> src r = a \<and> tgt r = b)
      in if list_ex hit (db_rels db)
         then merge_rels t ps pairs
                (db\<lparr>db_rels := map (\<lambda>r. if hit r then r\<lparr>rprops := set_props (rprops r) ps\<rparr> else r) (db_rels db)\<rparr>)
         else merge_rels t ps pairs
                (db\<lparr>db_rels := db_rels db @ [\<lparr>rid = next_id db, rtype = t, src = a, tgt = b, rprops = set_props [] ps\<rparr>],
                    next_id := Suc (next_id db)\<rparr>))"

definition merge_relationship ::
  "string \<Rightarrow> string \<Rightarrow> string \<Rightarrow> pdict \<Rightarrow> pdict \<Rightarrow> pdict \<Rightarrow> graph_db \<Rightarrow> (rel option, graph_db) res" where
  "merge_relationship from_label to_label rel_type from_props to_props rel_props db =
     (if \<not> validate_relationship from_label to_label rel_type rel_props then (Inl ValueError, db)
      else
        (case py_getitem from_props ''id'' of
           Inl e \<Rightarrow> (Inl e, db)
         | Inr from_id \<Rightarrow>
             (case py_getitem to_props ''id'' of
                Inl e \<Rightarrow> (Inl e, db)
              | Inr to_id \<Rightarrow>
                  (let db' = logq (Query ''merge_relationship'' [from_label, to_label, rel_type]
                               [(''from_id'', from_id), (''to_id'', to_id), (''rel_props'', VDict rel_props)]) db;
                       pairs = match_pairs from_label to_label from_id to_id db';
                       db'' = merge_rels rel_type rel_props pairs db'
                   in (Inr (find (\<lambda>r. rtype r = rel_type \<and> (src r, tgt r) \<in> set pairs) (db_rels db'')),
                       db'')))))"

text \<open>
  \<open>update_node\<close> builds \<open>MATCH (n:label) WHERE n.k = $k AND ... SET n.j = $update_j, ...
  RETURN n\<close> from its arguments and runs it, with the parameters
  \<open>{**match_props, **{update_j: v}}\<close>. With no match property or no update property
  the text is not Cypher and the store refuses it.
\<close>

definition update_params :: "pdict \<Rightarrow> pdict \<Rightarrow> pdict" where
  "update_params match_props update_props =
     foldl (\<lambda>d (k, v). AList.update k v d) match_props
       (map (\<lambda>(k, v). (''update_'' @ k, v)) update_props)"

definition update_node :: "string \<Rightarrow> pdict \<Rightarrow> pdict \<Rightarrow> graph_db \<Rightarrow> (node list, graph_db) res" where
  "update_node label match_props update_props db =
     (let params = update_params match_props update_props;
          db' = logq (Query ''update_node'' (label # map fst match_props @ map fst update_props) params) db
      in if match_props = [] \<or> update_props = [] then (Inl StoreError, db')
         else
           (let hit = (\<lambda>n. has_label label n
                          \<and> list_all (\<lambda>k. cy_eq (node_prop n k) (py_get params k)) (map fst match_props));
                upd = (\<lambda>n. if hit n
                          then n\<lparr>props := set_props (props n)
                                 (map (\<lambda>k. (k, py_get params (''update_'' @ k))) (map fst update_props))\<rparr>
                          else n)
            in (Inr (map upd (filter hit (db_nodes db'))), db'\<lparr>db_nodes := map upd (db_nodes db')\<rparr>)))"

section \<open>Entity resolution\<close>

subsection \<open>Normalisers\<close>

text \<open>
  \<open>str.isdigit\<close> on the code points below 256, which is what a \<open>char\<close> holds here:
  the ASCII digits and the superscript digits U+00B2, U+00B3 and U+00B9.
\<close>

definition isdigit :: "char \<Rightarrow> bool" where
  "isdigit c = (let n = (of_char c :: nat) in (48 \<le> n \<and> n \<le> 57) \<or> n = 178 \<or> n = 179 \<or> n = 185)"

text \<open>\<open>_normalize_phone\<close>: \<open>''.join(c for c in phone if c.isdigit())\<close>.\<close>

definition normalize_phone :: "string \<Rightarrow> string" where
  "normalize_phone phone = filter isdigit phone"

text \<open>
  The same on any value: a string is filtered character by character; a container of
  strings keeps the members that are all digits; \<open>isdigit\<close> of anything but a string
  and iteration over a scalar raise.
\<close>

definition normalize_phone_val :: "val \<Rightarrow> py_error + val" where
  "normalize_phone_val phone =
     (case phone of
        VStr s \<Rightarrow> Inr (VStr (normalize_phone s))
      | _ \<Rightarrow>
        (case py_iter phone of
           Inl e \<Rightarrow> Inl e
         | Inr xs \<Rightarrow>
             if list_ex (\<lambda>x. case x of VStr _ \<Rightarrow> False | _ \<Rightarrow> True) xs then Inl AttributeError
             else Inr (VStr (concat (map (\<lambda>x. case x of VStr s \<Rightarrow> (if s \<noteq> [] \<and> list_all isdigit s then s else []) | _ \<Rightarrow> []) xs)))))"

text \<open>\<open>str.lower\<close> on the code points below 256.\<close>

definition lower_char :: "char \<Rightarrow> char" where
  "lower_char c = (let n = (of_char c :: nat)
     in if (65 \<le> n \<and> n \<le> 90) \<or> (192 \<le> n \<and> n \<le> 222 \<and> n \<noteq> 215) then char_of (n + 32) else c)"

definition startswith :: "string \<Rightarrow> string \<Rightarrow> bool" where
  "startswith s p = (take (length p) s = p)"

definition rstrip_slash :: "string \<Rightarrow> string" where
  "rstrip_slash s = rev (dropWhile (\<lambda>c. c = CHR ''/'') (rev s))"

text \<open>
  \<open>_normalize_url\<close>: lower case, then each of the prefixes \<open>https://\<close>,
  \<open>http://\<close>, \<open>www.\<close> is removed in turn when the text starts with it, then trailing
  slashes are removed.
\<close>

definition strip_prefix :: "string \<Rightarrow> string \<Rightarrow> string" where
  "strip_prefix url p = (if startswith url p then drop (length p) url else url)"

definition normalize_url :: "string \<Rightarrow> string" where
  "normalize_url url =
     rstrip_slash (foldl strip_prefix (map lower_char url) [''https://'', ''http://'', ''www.''])"

definition normalize_url_val :: "val \<Rightarrow> py_error + val" where
  "normalize_url_val url = (case url of VStr s \<Rightarrow> Inr (VStr (normalize_url s)) | _ \<Rightarrow> Inl AttributeError)"

subsection \<open>The engine and its collaborators\<close>

text \<open>
  \<open>EntityResolutionEngine\<close> holds two thresholds and three collaborators it only
  calls: the fuzzy matcher of the string library (\<open>process.extractBests\<close> with the
  token sort scorer, a cutoff and a limit), the embedding service and the vector store.
  They are parameters here, over a vector store of any type \<open>'v\<close>; each may raise.
  \<open>datetime.fromisoformat\<close> is a parameter too.
\<close>

record hit =
  score :: real
  payload :: pdict

record 'v engine =
  similarity_threshold :: real
  fuzzy_match_threshold :: int
  extract_bests :: "val \<Rightarrow> val list \<Rightarrow> int \<Rightarrow> int \<Rightarrow> py_error + (val \<times> int) list"
  get_embedding :: "val \<Rightarrow> py_error + real list"
  vector_search :: "'v \<Rightarrow> string \<Rightarrow> real list \<Rightarrow> int \<Rightarrow> py_error + hit list"
  upsert_embedding :: "string \<Rightarrow> val \<Rightarrow> real list \<Rightarrow> pdict \<Rightarrow> 'v \<Rightarrow> (unit, 'v) res"
  fromisoformat :: "string \<Rightarrow> int option"

subsection \<open>Queries of the resolution engine\<close>

text \<open>\<open>MATCH (e:T) WHERE e.p = $value RETURN e LIMIT 1\<close>.\<close>

definition q_match_property :: "string \<Rightarrow> string \<Rightarrow> val \<Rightarrow> graph_db \<Rightarrow> node list \<times> graph_db" where
  "q_match_property entity_type property_name v db =
     (take 1 (filter (\<lambda>e. has_label entity_type e \<and> cy_eq (node_prop e property_name) v) (db_nodes db)),
      logq (Query ''match_property'' [entity_type, property_name] [(''value'', v)]) db)"

text \<open>\<open>MATCH (e:T) RETURN e.id AS id, e.f AS name LIMIT 100\<close>.\<close>

definition q_candidates :: "string \<Rightarrow> string \<Rightarrow> graph_db \<Rightarrow> (val \<times> val) list \<times> graph_db" where
  "q_candidates entity_type name_field db =
     (map (\<lambda>e. (node_prop e ''id'', node_prop e name_field))
        (take 100 (filter (has_label entity_type) (db_nodes db))),
      logq (Query ''candidates'' [entity_type, name_field] []) db)"

text \<open>\<open>MATCH (e:T) WHERE e.id = $id RETURN e\<close>.\<close>

definition q_by_id :: "string \<Rightarrow> val \<Rightarrow> graph_db \<Rightarrow> node list \<times> graph_db" where
  "q_by_id entity_type i db =
     (filter (has_label entity_type) (nodes_with_id db i),
      logq (Query ''by_id'' [entity_type] [(''id'', i)]) db)"

text \<open>
  \<open>MATCH (e:T)-[]-(other) WHERE other.id IN $related_ids WITH e, count(other) AS
  shared_count WHERE shared_count >= 2 RETURN e, shared_count ORDER BY shared_count DESC
  LIMIT 1\<close>: for each node of the type, the relationships in either direction whose
  other end has one of the ids are counted.
\<close>

definition shared_count :: "graph_db \<Rightarrow> val list \<Rightarrow> node \<Rightarrow> nat" where
  "shared_count db related_ids e =
     length (filter (\<lambda>r.
        (src r = nid e \<and> (case node_of db (tgt r) of None \<Rightarrow> False
                            | Some other \<Rightarrow> list_ex (cy_eq (node_prop other ''id'')) related_ids))
      \<or> (tgt r = nid e \<and> src r \<noteq> nid e
           \<and> (case node_of db (src r) of None \<Rightarrow> False
               | Some other \<Rightarrow> list_ex (cy_eq (node_prop other ''id'')) related_ids)))
      (db_rels db))"

fun first_max :: "('a \<Rightarrow> nat) \<Rightarrow> 'a list \<Rightarrow> 'a option" where
  "first_max f [] = None"
| "first_max f (x # xs) =
     (case first_max f xs of
        None \<Rightarrow> Some x
      | Some y \<Rightarrow> if f y > f x then Some y else Some x)"

definition q_relationship_overlap :: "string \<Rightarrow> val list \<Rightarrow> graph_db \<Rightarrow> node list \<times> graph_db" where
  "q_relationship_overlap entity_type related_ids db =
     ((case first_max (shared_count db related_ids)
              (filter (\<lambda>e. has_label entity_type e \<and> shared_count db related_ids e \<ge> 2) (db_nodes db)) of
         None \<Rightarrow> []
       | Some e \<Rightarrow> [e]),
      logq (Query ''relationship_overlap'' [entity_type] [(''related_ids'', VList related_ids)]) db)"

subsection \<open>The four matching strategies\<close>

text \<open>
  The identifiers of \<open>_match_by_identifiers\<close>, by entity type, in the order the source
  appends them.
\<close>

definition has_key :: "pdict \<Rightarrow> string \<Rightarrow> bool" where
  "has_key d k = (map_of d k \<noteq> None)"

definition person_identifiers :: "pdict \<Rightarrow> py_error + (string \<times> val) list" where
  "person_identifiers entity_data =
     (let email = (if has_key entity_data ''email'' then [(''email'', py_get entity_data ''email'')] else [])
      in case (if has_key entity_data ''phone''
               then (case normalize_phone_val (py_get entity_data ''phone'') of
                       Inl e \<Rightarrow> Inl e | Inr p \<Rightarrow> Inr [(''phone'', p)])
               else Inr []) of
           Inl e \<Rightarrow> Inl e
         | Inr phone \<Rightarrow>
             if has_key entity_data ''social_handles''
             then (case py_get entity_data ''social_handles'' of
                     VDict handles \<Rightarrow>
                       Inr (email @ phone @ map (\<lambda>(platform, handle). (''social_handles.'' @ platform, handle)) handles)
                   | _ \<Rightarrow> Inl AttributeError)
             else Inr (email @ phone))"

definition organization_identifiers :: "pdict \<Rightarrow> py_error + (string \<times> val) list" where
  "organization_identifiers entity_data =
     (case (if has_key entity_data ''website''
            then (case normalize_url_val (py_get entity_data ''website'') of
                    Inl e \<Rightarrow> Inl e | Inr u \<Rightarrow> Inr [(''website'', u)])
            else Inr []) of
        Inl e \<Rightarrow> Inl e
      | Inr website \<Rightarrow>
          Inr (website
               @ (if has_key entity_data ''domain'' then [(''domain'', py_get entity_data ''domain'')] else [])
               @ (if has_key entity_data ''tax_id'' then [(''tax_id'', py_get entity_data ''tax_id'')] else [])))"

definition location_identifiers :: "pdict \<Rightarrow> (string \<times> val) list" where
  "location_identifiers entity_data =
     (if has_key entity_data ''coordinates'' then [(''coordinates'', py_get entity_data ''coordinates'')] else [])
     @ (if has_key entity_data ''address'' \<and> has_key entity_data ''postal_code''
        then [(''address'', py_get entity_data ''address''), (''postal_code'', py_get entity_data ''postal_code'')]
        else [])"

definition identifiers_of :: "pdict \<Rightarrow> string \<Rightarrow> py_error + (string \<times> val) list" where
  "identifiers_of entity_data entity_type =
     (if entity_type = ''Person'' then person_identifiers entity_data
      else if entity_type = ''Organization'' then organization_identifiers entity_data
      else if entity_type = ''Location'' then Inr (location_identifiers entity_data)
      else Inr [])"

text \<open>The loop over the identifiers: an empty value is skipped, the first hit is returned.\<close>

fun try_identifiers :: "string \<Rightarrow> (string \<times> val) list \<Rightarrow> graph_db \<Rightarrow> node option \<times> graph_db" where
  "try_identifiers entity_type [] db = (None, db)"
| "try_identifiers entity_type ((property_name, v) # rest) db =
     (if \<not> truthy v then try_identifiers entity_type rest db
      else (case q_match_property entity_type property_name v db of
              ([], db') \<Rightarrow> try_identifiers entity_type rest db'
            | (e # _, db') \<Rightarrow> (Some e, db')))"

definition match_by_identifiers :: "pdict \<Rightarrow> string \<Rightarrow> graph_db \<Rightarrow> (node option, graph_db) res" where
  "match_by_identifiers entity_data entity_type db =
     (case identifiers_of entity_data entity_type of
        Inl e \<Rightarrow> (Inl e, db)
      | Inr identifiers \<Rightarrow>
          (case try_identifiers entity_type identifiers db of (r, db') \<Rightarrow> (Inr r, db')))"

definition name_field_of :: "pdict \<Rightarrow> string" where
  "name_field_of entity_data = (if has_key entity_data ''name'' then ''name'' else ''text'')"

definition match_by_fuzzy_name :: "'v engine \<Rightarrow> pdict \<Rightarrow> string \<Rightarrow> graph_db \<Rightarrow> (node option, graph_db) res" where
  "match_by_fuzzy_name eng entity_data entity_type db =
     (let name_field = name_field_of entity_data
      in if \<not> has_key entity_data name_field then (Inr None, db)
         else
           (let entity_name = py_get entity_data name_field;
                (candidates, db1) = q_candidates entity_type name_field db
            in if candidates = [] then (Inr None, db1)
               else
                 (let candidate_names = filter (\<lambda>c. truthy (snd c)) candidates
                  in if candidate_names = [] then (Inr None, db1)
                     else
                       (case extract_bests eng entity_name (map snd candidate_names)
                               (fuzzy_match_threshold eng) 3 of
                          Inl e \<Rightarrow> (Inl e, db1)
                        | Inr [] \<Rightarrow> (Inr None, db1)
                        | Inr ((best_match_name, _) # _) \<Rightarrow>
                            (case find (\<lambda>c. py_eq (snd c) best_match_name) candidate_names of
                               None \<Rightarrow> (Inr None, db1)
                             | Some (best_match_id, _) \<Rightarrow>
                                 (case q_by_id entity_type best_match_id db1 of
                                    ([], db2) \<Rightarrow> (Inr None, db2)
                                  | (e # _, db2) \<Rightarrow> (Inr (Some e), db2)))))))"

text \<open>
  The loop of \<open>_match_by_embedding\<close> over the search results: a result below the
  threshold is passed over, and so is one whose id is not a node of the type.
\<close>

fun try_hits :: "real \<Rightarrow> string \<Rightarrow> hit list \<Rightarrow> graph_db \<Rightarrow> (node option, graph_db) res" where
  "try_hits threshold entity_type [] db = (Inr None, db)"
| "try_hits threshold entity_type (h # hs) db =
     (if score h \<ge> threshold
      then (case py_getitem (payload h) ''id'' of
              Inl e \<Rightarrow> (Inl e, db)
            | Inr entity_id \<Rightarrow>
                (case q_by_id entity_type entity_id db of
                   ([], db') \<Rightarrow> try_hits threshold entity_type hs db'
                 | (e # _, db') \<Rightarrow> (Inr (Some e), db')))
      else try_hits threshold entity_type hs db)"

definition match_by_embedding ::
  "'v engine \<Rightarrow> 'v \<Rightarrow> pdict \<Rightarrow> string \<Rightarrow> graph_db \<Rightarrow> (node option, graph_db) res" where
  "match_by_embedding eng vs entity_data entity_type db =
     (let name_field = name_field_of entity_data
      in if \<not> has_key entity_data name_field then (Inr None, db)
         else
           (case (if has_key entity_data ''description''
                  then py_add_spaced (py_get entity_data name_field) (py_get entity_data ''description'')
                  else Inr (py_get entity_data name_field)) of
              Inl e \<Rightarrow> (Inl e, db)
            | Inr entity_text \<Rightarrow>
                (case get_embedding eng entity_text of
                   Inl e \<Rightarrow> (Inl e, db)
                 | Inr entity_embedding \<Rightarrow>
                     (case vector_search eng vs entity_type entity_embedding 5 of
                        Inl e \<Rightarrow> (Inl e, db)
                      | Inr search_results \<Rightarrow>
                          try_hits (similarity_threshold eng) entity_type search_results db))))"

text \<open>
  The target ids of \<open>_match_by_relationships\<close>: \<open>rel["target_id"]\<close> of every member
  that has the key. A member that is not a dict raises as Python does.
\<close>

fun is_substring :: "string \<Rightarrow> string \<Rightarrow> bool" where
  "is_substring p [] = (p = [])"
| "is_substring p (c # s) = (startswith (c # s) p \<or> is_substring p s)"

definition target_of :: "val \<Rightarrow> py_error + val list" where
  "target_of r =
     (case r of
        VDict d \<Rightarrow> (if has_key d ''target_id'' then Inr [py_get d ''target_id''] else Inr [])
      | VStr s \<Rightarrow> (if is_substring ''target_id'' s then Inl TypeError else Inr [])
      | VList xs \<Rightarrow> (if list_ex (\<lambda>x. py_eq x (VStr ''target_id'')) xs then Inl TypeError else Inr [])
      | _ \<Rightarrow> Inl TypeError)"

fun targets_of :: "val list \<Rightarrow> py_error + val list" where
  "targets_of [] = Inr []"
| "targets_of (r # rs) =
     (case target_of r of
        Inl e \<Rightarrow> Inl e
      | Inr t \<Rightarrow> (case targets_of rs of Inl e \<Rightarrow> Inl e | Inr ts \<Rightarrow> Inr (t @ ts)))"

definition match_by_relationships :: "pdict \<Rightarrow> string \<Rightarrow> graph_db \<Rightarrow> (node option, graph_db) res" where
  "match_by_relationships entity_data entity_type db =
     (if \<not> has_key entity_data ''relationships'' \<or> \<not> truthy (py_get entity_data ''relationships'')
      then (Inr None, db)
      else
        (case py_iter (py_get entity_data ''relationships'') of
           Inl e \<Rightarrow> (Inl e, db)
         | Inr rels \<Rightarrow>
             (case targets_of rels of
                Inl e \<Rightarrow> (Inl e, db)
              | Inr related_entities \<Rightarrow>
                  if related_entities = [] then (Inr None, db)
                  else (case q_relationship_overlap entity_type related_entities db of
                          ([], db') \<Rightarrow> (Inr None, db')
                        | (e # _, db') \<Rightarrow> (Inr (Some e), db')))))"

subsection \<open>\<open>resolve_entity\<close>\<close>

text \<open>
  A returned node is tested with \<open>if match:\<close>, which holds when the node has at
  least one property.
\<close>

definition node_truthy :: "node option \<Rightarrow> bool" where
  "node_truthy m = (case m of None \<Rightarrow> False | Some e \<Rightarrow> props e \<noteq> [])"

definition resolve_entity ::
  "'v engine \<Rightarrow> 'v \<Rightarrow> pdict \<Rightarrow> string \<Rightarrow> graph_db \<Rightarrow> (node option, graph_db) res" where
  "resolve_entity eng vs entity_data entity_type db =
     (case match_by_identifiers entity_data entity_type db of
        (Inl e, db1) \<Rightarrow> (Inl e, db1)
      | (Inr exact_match, db1) \<Rightarrow>
          if node_truthy exact_match then (Inr exact_match, db1)
          else
            (case match_by_fuzzy_name eng entity_data entity_type db1 of
               (Inl e, db2) \<Rightarrow> (Inl e, db2)
             | (Inr fuzzy_match, db2) \<Rightarrow>
                 if node_truthy fuzzy_match then (Inr fuzzy_match, db2)
                 else
                   (case match_by_embedding eng vs entity_data entity_type db2 of
                      (Inl e, db3) \<Rightarrow> (Inl e, db3)
                    | (Inr semantic_match, db3) \<Rightarrow>
                        if node_truthy semantic_match then (Inr semantic_match, db3)
                        else
                          (case match_by_relationships entity_data entity_type db3 of
                             (Inl e, db4) \<Rightarrow> (Inl e, db4)
                           | (Inr relationship_match, db4) \<Rightarrow>
                               if node_truthy relationship_match then (Inr relationship_match, db4)
                               else (Inr None, db4)))))"

subsection \<open>Merging two entities\<close>

definition endswith :: "string \<Rightarrow> string \<Rightarrow> bool" where
  "endswith s suffix = (length suffix \<le> length s \<and> drop (length s - length suffix) s = suffix)"

definition skip_key :: "string \<Rightarrow> bool" where
  "skip_key k = (k = ''id'' \<or> k = ''labels'')"

text \<open>\<open>if isinstance(d, str): d = datetime.fromisoformat(d)\<close>.\<close>

definition as_date :: "'v engine \<Rightarrow> val \<Rightarrow> py_error + val" where
  "as_date eng v =
     (case v of
        VStr s \<Rightarrow> (case fromisoformat eng s of None \<Rightarrow> Inl ValueError | Some d \<Rightarrow> Inr (VDate d))
      | _ \<Rightarrow> Inr v)"

text \<open>
  The value \<open>_merge_properties\<close> leaves under a key both entities have: \<open>value\<close> is
  the source's, \<open>cur\<close> is \<open>merged[key]\<close>.
\<close>

definition merge_conflict :: "'v engine \<Rightarrow> string \<Rightarrow> string \<Rightarrow> val \<Rightarrow> val \<Rightarrow> py_error + val" where
  "merge_conflict eng merge_strategy key v cur =
     (if merge_strategy = ''newer_wins'' then
        (if endswith key ''_at'' \<or> key = ''timestamp'' then
           (if truthy v \<and> truthy cur then
              (case as_date eng v of
                 Inl e \<Rightarrow> Inl e
               | Inr source_date \<Rightarrow>
                   (case as_date eng cur of
                      Inl e \<Rightarrow> Inl e
                    | Inr target_date \<Rightarrow>
                        (case py_gt source_date target_date of
                           Inl e \<Rightarrow> Inl e
                         | Inr later \<Rightarrow> Inr (if later then source_date else target_date))))
            else Inr cur)
         else if key = ''confidence'' then
           (case py_gt cur v of Inl e \<Rightarrow> Inl e | Inr cur_wins \<Rightarrow> Inr (if cur_wins then cur else v))
         else Inr (if \<not> truthy cur \<and> truthy v then v else cur))
      else if merge_strategy = ''source_wins'' then Inr v
      else Inr cur)"

fun merge_source :: "'v engine \<Rightarrow> string \<Rightarrow> pdict \<Rightarrow> pdict \<Rightarrow> py_error + pdict" where
  "merge_source eng merge_strategy [] merged = Inr merged"
| "merge_source eng merge_strategy ((key, v) # rest) merged =
     (if skip_key key then merge_source eng merge_strategy rest merged
      else
        (case map_of merged key of
           None \<Rightarrow> merge_source eng merge_strategy rest (AList.update key v merged)
         | Some cur \<Rightarrow>
             (case merge_conflict eng merge_strategy key v cur of
                Inl e \<Rightarrow> Inl e
              | Inr w \<Rightarrow> merge_source eng merge_strategy rest (AList.update key w merged))))"

text \<open>\<open>(target_entity.get("merged_count", 0) or 0) + 1\<close>.\<close>

definition next_merged_count :: "pdict \<Rightarrow> py_error + val" where
  "next_merged_count target_entity =
     (case (case map_of target_entity ''merged_count'' of
              None \<Rightarrow> VInt 0
            | Some c \<Rightarrow> if truthy c then c else VInt 0) of
        VInt i \<Rightarrow> Inr (VInt (i + 1))
      | VBool b \<Rightarrow> Inr (VInt ((if b then 1 else 0) + 1))
      | _ \<Rightarrow> Inl TypeError)"

definition merge_properties :: "'v engine \<Rightarrow> pdict \<Rightarrow> pdict \<Rightarrow> string \<Rightarrow> py_error + pdict" where
  "merge_properties eng source_entity target_entity merge_strategy =
     (case merge_source eng merge_strategy source_entity
             (filter (\<lambda>kv. \<not> skip_key (fst kv)) target_entity) of
        Inl e \<Rightarrow> Inl e
      | Inr merged \<Rightarrow>
          (case next_merged_count target_entity of
             Inl e \<Rightarrow> Inl e
           | Inr c \<Rightarrow> Inr (AList.update ''merged_count'' c merged)))"

text \<open>
  The queries of \<open>_transfer_relationships\<close>. A pattern end with or without the entity
  type as its label is \<open>Some T\<close> or \<open>None\<close>.
\<close>

definition labelled :: "string option \<Rightarrow> node \<Rightarrow> bool" where
  "labelled l n = (case l of None \<Rightarrow> True | Some t \<Rightarrow> has_label t n)"

text \<open>
  \<open>MATCH (source:T)-[r]->(target) WHERE source.id = $source_id RETURN type(r), r, target\<close>
\<close>

definition q_outgoing :: "string \<Rightarrow> val \<Rightarrow> graph_db \<Rightarrow> (rel \<times> node) list \<times> graph_db" where
  "q_outgoing entity_type source_id db =
     (List.map_filter
        (\<lambda>r. case node_of db (src r) of
                None \<Rightarrow> None
              | Some s \<Rightarrow>
                  (case node_of db (tgt r) of
                     None \<Rightarrow> None
                   | Some t \<Rightarrow>
                       if has_label entity_type s \<and> cy_eq (node_prop s ''id'') source_id
                       then Some (r, t) else None))
        (db_rels db),
      logq (Query ''outgoing'' [entity_type] [(''source_id'', source_id)]) db)"

text \<open>
  \<open>MATCH (source)-[r]->(target:T) WHERE target.id = $source_id RETURN type(r), r, source\<close>
\<close>

definition q_incoming :: "string \<Rightarrow> val \<Rightarrow> graph_db \<Rightarrow> (rel \<times> node) list \<times> graph_db" where
  "q_incoming entity_type source_id db =
     (List.map_filter
        (\<lambda>r. case node_of db (src r) of
                None \<Rightarrow> None
              | Some s \<Rightarrow>
                  (case node_of db (tgt r) of
                     None \<Rightarrow> None
                   | Some t \<Rightarrow>
                       if has_label entity_type t \<and> cy_eq (node_prop t ''id'') source_id
                       then Some (r, s) else None))
        (db_rels db),
      logq (Query ''incoming'' [entity_type] [(''source_id'', source_id)]) db)"

text \<open>
  \<open>MATCH (source)-[r:R]->(target) WHERE source.id = $source_id AND target.id = $target_id
  RETURN count(r) AS rel_count\<close>
\<close>

definition q_count_rels ::
  "string option \<Rightarrow> string option \<Rightarrow> string \<Rightarrow> val \<Rightarrow> val \<Rightarrow> graph_db \<Rightarrow> nat \<times> graph_db" where
  "q_count_rels src_label tgt_label rel_type source_id target_id db =
     (length (filter
        (\<lambda>r. rtype r = rel_type
            \<and> (case node_of db (src r) of
                 None \<Rightarrow> False
               | Some s \<Rightarrow> labelled src_label s \<and> cy_eq (node_prop s ''id'') source_id)
            \<and> (case node_of db (tgt r) of
                 None \<Rightarrow> False
               | Some t \<Rightarrow> labelled tgt_label t \<and> cy_eq (node_prop t ''id'') target_id))
        (db_rels db)),
      logq (Query ''count_rels'' [rel_type] [(''source_id'', source_id), (''target_id'', target_id)]) db)"

text \<open>
  \<open>MATCH (source), (target) WHERE source.id = $source_id AND target.id = $target_id
  CREATE (source)-[r:R $props]->(target)\<close>
\<close>

definition q_create_rel ::
  "string option \<Rightarrow> string option \<Rightarrow> string \<Rightarrow> val \<Rightarrow> val \<Rightarrow> pdict \<Rightarrow> graph_db \<Rightarrow> graph_db" where
  "q_create_rel src_label tgt_label rel_type source_id target_id ps db =
     snd (create_rels rel_type ps
            (List.product (map nid (filter (labelled src_label) (nodes_with_id db source_id)))
                          (map nid (filter (labelled tgt_label) (nodes_with_id db target_id))))
            (logq (Query ''create_rel'' [rel_type]
                     [(''source_id'', source_id), (''target_id'', target_id), (''props'', VDict ps)]) db))"

definition rel_props_of :: "rel \<Rightarrow> pdict" where
  "rel_props_of r = filter (\<lambda>kv. fst kv \<notin> {''id'', ''source'', ''target'', ''type''}) (rprops r)"

text \<open>
  The two loops of \<open>_transfer_relationships\<close>, over the rows read before either loop
  starts: a relationship is created on the target entity unless one of the same type to
  the same other end is counted there.
\<close>

fun transfer_outgoing :: "string \<Rightarrow> val \<Rightarrow> (rel \<times> node) list \<Rightarrow> graph_db \<Rightarrow> (unit, graph_db) res" where
  "transfer_outgoing entity_type target_id [] db = (Inr (), db)"
| "transfer_outgoing entity_type target_id ((r, target_node) # rows) db =
     (case py_getitem (props target_node) ''id'' of
        Inl e \<Rightarrow> (Inl e, db)
      | Inr other_id \<Rightarrow>
          (case q_count_rels (Some entity_type) None (rtype r) target_id other_id db of
             (rel_count, db1) \<Rightarrow>
               if rel_count > 0 then transfer_outgoing entity_type target_id rows db1
               else transfer_outgoing entity_type target_id rows
                      (q_create_rel (Some entity_type) None (rtype r) target_id other_id (rel_props_of r) db1)))"

fun transfer_incoming :: "string \<Rightarrow> val \<Rightarrow> (rel \<times> node) list \<Rightarrow> graph_db \<Rightarrow> (unit, graph_db) res" where
  "transfer_incoming entity_type target_id [] db = (Inr (), db)"
| "transfer_incoming entity_type target_id ((r, source_node) # rows) db =
     (case py_getitem (props source_node) ''id'' of
        Inl e \<Rightarrow> (Inl e, db)
      | Inr other_id \<Rightarrow>
          (case q_count_rels None (Some entity_type) (rtype r) other_id target_id db of
             (rel_count, db1) \<Rightarrow>
               if rel_count > 0 then transfer_incoming entity_type target_id rows db1
               else transfer_incoming entity_type target_id rows
                      (q_create_rel None (Some entity_type) (rtype r) other_id target_id (rel_props_of r) db1)))"

definition transfer_relationships :: "val \<Rightarrow> val \<Rightarrow> string \<Rightarrow> graph_db \<Rightarrow> (unit, graph_db) res" where
  "transfer_relationships source_id target_id entity_type db =
     (case q_outgoing entity_type source_id db of
        (outgoing_rels, db1) \<Rightarrow>
          (case q_incoming entity_type source_id db1 of
             (incoming_rels, db2) \<Rightarrow>
               (case transfer_outgoing entity_type target_id outgoing_rels db2 of
                  (Inl e, db3) \<Rightarrow> (Inl e, db3)
                | (Inr u, db3) \<Rightarrow> transfer_incoming entity_type target_id incoming_rels db3)))"

text \<open>\<open>MATCH (e:T) WHERE e.id = $id SET e += $properties RETURN e\<close>\<close>

definition q_set_properties :: "string \<Rightarrow> val \<Rightarrow> pdict \<Rightarrow> graph_db \<Rightarrow> node list \<times> graph_db" where
  "q_set_properties entity_type i ps db =
     (let hit = (\<lambda>e. has_label entity_type e \<and> cy_eq (node_prop e ''id'') i);
          upd = (\<lambda>e. if hit e then e\<lparr>props := set_props (props e) ps\<rparr> else e)
      in (map upd (filter hit (db_nodes db)),
          (logq (Query ''set_properties'' [entity_type] [(''id'', i), (''properties'', VDict ps)]) db)
            \<lparr>db_nodes := map upd (db_nodes db)\<rparr>))"

text \<open>
  \<open>MATCH (e:T) WHERE e.id = $id SET e.merged = true, e.merged_into = $target_id,
  e.merged_at = $merged_at\<close>
\<close>

definition q_mark_merged :: "string \<Rightarrow> val \<Rightarrow> val \<Rightarrow> val \<Rightarrow> graph_db \<Rightarrow> graph_db" where
  "q_mark_merged entity_type i target_id merged_at db =
     (let ps = [(''merged'', VBool True), (''merged_into'', target_id), (''merged_at'', merged_at)]
      in (logq (Query ''mark_merged'' [entity_type]
                  [(''id'', i), (''target_id'', target_id), (''merged_at'', merged_at)]) db)
           \<lparr>db_nodes := map (\<lambda>e. if has_label entity_type e \<and> cy_eq (node_prop e ''id'') i
                                  then e\<lparr>props := set_props (props e) ps\<rparr> else e) (db_nodes db)\<rparr>)"

text \<open>\<open>_update_entity_embedding\<close>: the merged name or text, and the description, are embedded again.\<close>

definition get_or_empty :: "pdict \<Rightarrow> string \<Rightarrow> val" where
  "get_or_empty d k = (case map_of d k of None \<Rightarrow> VStr [] | Some v \<Rightarrow> v)"

definition py_prefix100 :: "val \<Rightarrow> py_error + val" where
  "py_prefix100 v =
     (case v of
        VStr s \<Rightarrow> Inr (VStr (take 100 s))
      | VList xs \<Rightarrow> Inr (VList (take 100 xs))
      | _ \<Rightarrow> Inl TypeError)"

definition update_entity_embedding :: "'v engine \<Rightarrow> val \<Rightarrow> string \<Rightarrow> pdict \<Rightarrow> 'v \<Rightarrow> (unit, 'v) res" where
  "update_entity_embedding eng entity_id entity_type entity_properties vs =
     (let name_or_text = (if truthy (get_or_empty entity_properties ''name'')
                          then get_or_empty entity_properties ''name''
                          else get_or_empty entity_properties ''text'')
      in case (if has_key entity_properties ''description''
               then py_add_spaced name_or_text (py_get entity_properties ''description'')
               else Inr name_or_text) of
           Inl e \<Rightarrow> (Inl e, vs)
         | Inr text_to_embed \<Rightarrow>
             if \<not> truthy text_to_embed then (Inr (), vs)
             else
               (case get_embedding eng text_to_embed of
                  Inl e \<Rightarrow> (Inl e, vs)
                | Inr embedding \<Rightarrow>
                    (case py_prefix100 text_to_embed of
                       Inl e \<Rightarrow> (Inl e, vs)
                     | Inr short \<Rightarrow>
                         upsert_embedding eng entity_type entity_id embedding
                           [(''id'', entity_id), (''text'', short), (''type'', VStr entity_type)] vs)))"

text \<open>
  \<open>merge_entities\<close>. \<open>merged_at\<close> is the reading of \<open>datetime.now().isoformat()\<close>.
\<close>

definition merge_entities ::
  "'v engine \<Rightarrow> val \<Rightarrow> val \<Rightarrow> string \<Rightarrow> string \<Rightarrow> val \<Rightarrow> graph_db \<times> 'v \<Rightarrow> (node, graph_db \<times> 'v) res" where
  "merge_entities eng source_id target_id entity_type merge_strategy merged_at st =
     (case q_by_id entity_type source_id (fst st) of
        (source_result, db1) \<Rightarrow>
     (case q_by_id entity_type target_id db1 of
        (target_result, db2) \<Rightarrow>
     (case (source_result, target_result) of
        (source_entity # _, target_entity # _) \<Rightarrow>
          (case merge_properties eng (props source_entity) (props target_entity) merge_strategy of
             Inl e \<Rightarrow> (Inl e, (db2, snd st))
           | Inr merged_properties \<Rightarrow>
               (case q_set_properties entity_type target_id merged_properties db2 of
                  (updated_target, db3) \<Rightarrow>
               (case transfer_relationships source_id target_id entity_type db3 of
                  (Inl e, db4) \<Rightarrow> (Inl e, (db4, snd st))
                | (Inr u, db4) \<Rightarrow>
                    (let db5 = q_mark_merged entity_type source_id target_id merged_at db4
                     in case update_entity_embedding eng target_id entity_type merged_properties (snd st) of
                          (Inl e, vs') \<Rightarrow> (Inl e, (db5, vs'))
                        | (Inr u', vs') \<Rightarrow>
                            (case q_by_id entity_type target_id db5 of
                               ([], db6) \<Rightarrow> (Inl IndexError, (db6, vs'))
                             | (e # _, db6) \<Rightarrow> (Inr e, (db6, vs')))))))
      | _ \<Rightarrow> (Inl ValueError, (db2, snd st)))))"

text \<open>
  The store of the data model: nodes have an identity of their own and a unique \<open>id\<close>
  that is not null, and a relationship joins two nodes of the store. A relationship is
  seen from outside as its source, its type and its target.
\<close>

definition wf_graph :: "graph_db \<Rightarrow> bool" where
  "wf_graph db =
     (distinct (map nid (db_nodes db))
      \<and> list_all (\<lambda>n. py_get (props n) ''id'' \<noteq> VNull) (db_nodes db)
      \<and> distinct (map (\<lambda>n. py_get (props n) ''id'') (db_nodes db))
      \<and> list_all (\<lambda>r. src r \<in> nid ` set (db_nodes db) \<and> tgt r \<in> nid ` set (db_nodes db)) (db_rels db))"

definition edge_of :: "rel \<Rightarrow> nat \<times> string \<times> nat" where
  "edge_of r = (src r, rtype r, tgt r)"

section \<open>Graph traversal\<close>

text \<open>
  \<open>_build_relationship_filter\<close> and \<open>_build_node_filter\<close> turn a non-empty list into
  a pattern suffix: \<open>:A|B\<close> lets a relationship have any of the types, \<open>:A:B\<close> makes a
  node carry all of the labels. No list, or an empty one, filters nothing.
\<close>

definition rel_ok :: "string list option \<Rightarrow> rel \<Rightarrow> bool" where
  "rel_ok relationship_types r =
     (case relationship_types of
        None \<Rightarrow> True
      | Some ts \<Rightarrow> ts = [] \<or> rtype r \<in> set ts)"

definition node_ok :: "string list option \<Rightarrow> node \<Rightarrow> bool" where
  "node_ok node_types m =
     (case node_types of
        None \<Rightarrow> True
      | Some ls \<Rightarrow> list_all (\<lambda>l. has_label l m) ls)"

text \<open>\<open>UNION\<close> keeps one copy of each row.\<close>

fun union_rows :: "'a list \<Rightarrow> 'a list \<Rightarrow> 'a list" where
  "union_rows seen [] = []"
| "union_rows seen (x # xs) =
     (if x \<in> set seen then union_rows seen xs else x # union_rows (x # seen) xs)"

text \<open>
  \<open>_expand_from_node\<close>:
  \<open>MATCH (n)-[r]->(m) WHERE n.id = $node_id RETURN m, r UNION
  MATCH (m)-[r]->(n) WHERE n.id = $node_id RETURN m, r LIMIT $limit\<close>,
  with the two filters on \<open>r\<close> and \<open>m\<close>. The \<open>LIMIT\<close> belongs to the second
  \<open>RETURN\<close>; the store refuses a negative one.
\<close>

definition outbound_rows :: "string list option \<Rightarrow> string list option \<Rightarrow> val \<Rightarrow> graph_db \<Rightarrow> (node \<times> rel) list" where
  "outbound_rows relationship_types node_types node_id db =
     List.map_filter
       (\<lambda>r. case node_of db (src r) of
               None \<Rightarrow> None
             | Some n \<Rightarrow>
                 (case node_of db (tgt r) of
                    None \<Rightarrow> None
                  | Some m \<Rightarrow>
                      if rel_ok relationship_types r \<and> node_ok node_types m
                         \<and> cy_eq (node_prop n ''id'') node_id
                      then Some (m, r) else None))
       (db_rels db)"

definition inbound_rows :: "string list option \<Rightarrow> string list option \<Rightarrow> val \<Rightarrow> graph_db \<Rightarrow> (node \<times> rel) list" where
  "inbound_rows relationship_types node_types node_id db =
     List.map_filter
       (\<lambda>r. case node_of db (tgt r) of
               None \<Rightarrow> None
             | Some n \<Rightarrow>
                 (case node_of db (src r) of
                    None \<Rightarrow> None
                  | Some m \<Rightarrow>
                      if rel_ok relationship_types r \<and> node_ok node_types m
                         \<and> cy_eq (node_prop n ''id'') node_id
                      then Some (m, r) else None))
       (db_rels db)"

definition filter_names :: "string list option \<Rightarrow> string list" where
  "filter_names f = (case f of None \<Rightarrow> [] | Some xs \<Rightarrow> xs)"

definition expand_from_node ::
  "val \<Rightarrow> int \<Rightarrow> string list option \<Rightarrow> string list option \<Rightarrow> graph_db \<Rightarrow> ((node \<times> rel) list, graph_db) res" where
  "expand_from_node node_id limit relationship_types node_types db =
     (let db' = logq (Query ''expand'' (filter_names relationship_types @ filter_names node_types)
                        [(''node_id'', node_id), (''limit'', VInt limit)]) db
      in if limit < 0 then (Inl StoreError, db')
         else (Inr (union_rows []
                      (outbound_rows relationship_types node_types node_id db
                       @ take (nat limit) (inbound_rows relationship_types node_types node_id db))),
               db'))"

text \<open>
  The visited set holds hashable values, and equal values once: a list or a dict as a
  member raises, and a bool is the integer it stands for.
\<close>

definition hashable :: "val \<Rightarrow> bool" where
  "hashable v = (case v of VList _ \<Rightarrow> False | VDict _ \<Rightarrow> False | _ \<Rightarrow> True)"

definition in_visited :: "val \<Rightarrow> val list \<Rightarrow> bool" where
  "in_visited v visited = (py_norm v \<in> set visited)"

text \<open>
  What the test \<open>m and m['id'] not in visited\<close> finds: the id under which \<open>m\<close> is
  appended and queued, or nothing to do.
\<close>

definition new_neighbour :: "val list \<Rightarrow> node \<Rightarrow> py_error + val option" where
  "new_neighbour visited m =
     (if props m = [] then Inr None
      else (case py_getitem (props m) ''id'' of
              Inl e \<Rightarrow> Inl e
            | Inr i \<Rightarrow>
                if \<not> hashable i then Inl TypeError
                else if in_visited i visited then Inr None
                else Inr (Some i)))"

text \<open>
  The inner loop of \<open>traverse_from_seeds\<close> over the records of one expansion. It leaves
  the loop as soon as the node list has reached \<open>max_nodes_per_hop\<close>.
\<close>

fun expand_records ::
  "int \<Rightarrow> int \<Rightarrow> val list \<Rightarrow> (node \<times> rel) list
   \<Rightarrow> (val \<times> int) list \<times> node list \<times> rel list
   \<Rightarrow> py_error + (val \<times> int) list \<times> node list \<times> rel list" where
  "expand_records max_nodes_per_hop hop visited [] acc = Inr acc"
| "expand_records max_nodes_per_hop hop visited ((m, r) # records) (queue, ns, rs) =
     (case new_neighbour visited m of
        Inl e \<Rightarrow> Inl e
      | Inr new \<Rightarrow>
          (let queue' = (case new of None \<Rightarrow> queue | Some i \<Rightarrow> queue @ [(i, hop + 1)]);
               ns' = (case new of None \<Rightarrow> ns | Some i \<Rightarrow> ns @ [m]);
               rs' = (if rprops r \<noteq> [] then rs @ [r] else rs)
           in if int (length ns') \<ge> max_nodes_per_hop then Inr (queue', ns', rs')
              else expand_records max_nodes_per_hop hop visited records (queue', ns', rs')))"

text \<open>The \<open>while queue:\<close> loop.\<close>

function traverse_loop ::
  "int \<Rightarrow> int \<Rightarrow> string list option \<Rightarrow> string list option
   \<Rightarrow> (val \<times> int) list \<Rightarrow> val list \<Rightarrow> node list \<Rightarrow> rel list \<Rightarrow> graph_db
   \<Rightarrow> (node list \<times> rel list, graph_db) res" where
  "traverse_loop max_hops max_nodes_per_hop relationship_types node_types [] visited ns rs db =
     (Inr (ns, rs), db)"
| "traverse_loop max_hops max_nodes_per_hop relationship_types node_types ((current_id, hop) # queue)
     visited ns rs db =
     (if hop > max_hops
      then traverse_loop max_hops max_nodes_per_hop relationship_types node_types queue visited ns rs db
      else if \<not> hashable current_id then (Inl TypeError, db)
      else if in_visited current_id visited
      then traverse_loop max_hops max_nodes_per_hop relationship_types node_types queue visited ns rs db
      else
        (case expand_from_node current_id max_nodes_per_hop relationship_types node_types db of
           (Inl e, db') \<Rightarrow> (Inl e, db')
         | (Inr results, db') \<Rightarrow>
             (case expand_records max_nodes_per_hop hop (py_norm current_id # visited) results
                     (queue, ns, rs) of
                Inl e \<Rightarrow> (Inl e, db')
              | Inr (queue', ns', rs') \<Rightarrow>
                  if int (length ns') \<ge> max_nodes_per_hop then (Inr (ns', rs'), db')
                  else traverse_loop max_hops max_nodes_per_hop relationship_types node_types queue'
                         (py_norm current_id # visited) ns' rs' db')))"
  by pat_completeness auto
termination
proof -
  have grow: "length q' + length n = length q + length n' \<and> length n \<le> length n'"
    if "expand_records c h v recs (q, n, r) = Inr (q', n', r')" for c h v recs q n r q' n' r'
    using that
  proof (induction c h v recs "(q, n, r)" arbitrary: q n r rule: expand_records.induct)
    case (1 c h v acc)
    then show ?case by simp
  next
    case (2 c h v m e recs q n r)
    from "2.prems" obtain new where new: "new_neighbour v m = Inr new"
      by (auto split: sum.splits)
    let ?q = "case new of None \<Rightarrow> q | Some i \<Rightarrow> q @ [(i, h + 1)]"
    let ?n = "case new of None \<Rightarrow> n | Some i \<Rightarrow> n @ [m]"
    let ?r = "if rprops e \<noteq> [] then r @ [e] else r"
    have step: "length ?q + length n = length q + length ?n \<and> length n \<le> length ?n"
      by (cases new) auto
    show ?case
    proof (cases "int (length ?n) \<ge> c")
      case True
      with "2.prems" new have "q' = ?q" "n' = ?n"
        by (auto simp: Let_def)
      with step show ?thesis by simp
    next
      case False
      with "2.prems" new have run: "expand_records c h v recs (?q, ?n, ?r) = Inr (q', n', r')"
        by (auto simp: Let_def)
      have "length q' + length ?n = length ?q + length n' \<and> length ?n \<le> length n'"
        using "2.hyps" new False run by simp
      with step show ?thesis by linarith
    qed
  qed
  show ?thesis
  proof (relation "measure (\<lambda>(max_hops, max_nodes_per_hop, relationship_types, node_types, queue, visited, ns, rs, db).
         2 * nat (max_nodes_per_hop - int (length ns)) + length queue)", goal_cases)
    case 1
    show ?case by simp
  next
    case 2
    show ?case by simp
  next
    case 3
    show ?case by simp
  next
    case 4
    then show ?case
      using grow by fastforce
  qed
qed

definition traverse_from_seeds ::
  "val list \<Rightarrow> int \<Rightarrow> int \<Rightarrow> string list option \<Rightarrow> string list option \<Rightarrow> graph_db
   \<Rightarrow> (node list \<times> rel list, graph_db) res" where
  "traverse_from_seeds seed_node_ids max_hops max_nodes_per_hop relationship_types node_types db =
     traverse_loop max_hops max_nodes_per_hop relationship_types node_types
       (map (\<lambda>node_id. (node_id, 0)) seed_node_ids) [] [] [] db"

text \<open>The node ids of the expansions in a query log, as the visited set holds them.\<close>

fun expand_id :: "query \<Rightarrow> val list" where
  "expand_id (Query name parts params) =
     (if name = ''expand'' then [py_norm (py_get params ''node_id'')] else [])"

definition expanded_ids :: "query list \<Rightarrow> val list" where
  "expanded_ids qs = concat (map expand_id qs)"

section \<open>The cache tiers of the retrieval engine\<close>

subsection \<open>The distributed cache\<close>

text \<open>
  \<open>RedisCache\<close>: a map from key to a value and, when the key was set with a time to
  live, the time at which the server drops it. Every operation talks to the server and
  may fail; \<open>faults\<close> tells, head first, which of the coming operations fail (none
  when the list is empty). \<open>get\<close> answers a failure with \<open>None\<close>; \<open>set\<close>,
  \<open>delete\<close> and \<open>flush\<close> raise. \<open>set\<close> gives the key a time to live when
  \<open>ttl\<close> is neither \<open>None\<close> nor zero, and the server refuses a negative one.
\<close>

record 'c redis =
  rstore :: "(string \<times> 'c \<times> real option) list"
  faults :: "bool list"

definition next_fault :: "'c redis \<Rightarrow> bool \<times> 'c redis" where
  "next_fault r = (case faults r of [] \<Rightarrow> (False, r) | f # fs \<Rightarrow> (f, r\<lparr>faults := fs\<rparr>))"

definition live :: "real \<Rightarrow> real option \<Rightarrow> bool" where
  "live now expire = (case expire of None \<Rightarrow> True | Some t \<Rightarrow> now < t)"

definition redis_get :: "real \<Rightarrow> string \<Rightarrow> 'c redis \<Rightarrow> 'c option \<times> 'c redis" where
  "redis_get now key r =
     (case next_fault r of
        (failed, r') \<Rightarrow>
          if failed then (None, r')
          else (case map_of (rstore r') key of
                  None \<Rightarrow> (None, r')
                | Some (v, expire) \<Rightarrow> (if live now expire then Some v else None, r')))"

definition redis_set :: "real \<Rightarrow> string \<Rightarrow> 'c \<Rightarrow> int option \<Rightarrow> 'c redis \<Rightarrow> (unit, 'c redis) res" where
  "redis_set now key v seconds r =
     (case next_fault r of
        (failed, r') \<Rightarrow>
          if failed then (Inl StoreError, r')
          else (case seconds of
                  None \<Rightarrow> (Inr (), r'\<lparr>rstore := AList.update key (v, None) (rstore r')\<rparr>)
                | Some t \<Rightarrow>
                    if t = 0 then (Inr (), r'\<lparr>rstore := AList.update key (v, None) (rstore r')\<rparr>)
                    else if t < 0 then (Inl StoreError, r')
                    else (Inr (), r'\<lparr>rstore := AList.update key (v, Some (now + real_of_int t)) (rstore r')\<rparr>)))"

definition redis_delete :: "string \<Rightarrow> 'c redis \<Rightarrow> (unit, 'c redis) res" where
  "redis_delete key r =
     (case next_fault r of
        (failed, r') \<Rightarrow>
          if failed then (Inl StoreError, r')
          else (Inr (), r'\<lparr>rstore := AList.delete key (rstore r')\<rparr>))"

definition redis_flush :: "'c redis \<Rightarrow> (unit, 'c redis) res" where
  "redis_flush r =
     (case next_fault r of
        (failed, r') \<Rightarrow>
          if failed then (Inl StoreError, r')
          else (Inr (), r'\<lparr>rstore := []\<rparr>))"

subsection \<open>What the caches hold, and the state of the module\<close>

text \<open>
  A point the vector store returns, and the two kinds of value the caches hold: the
  data of a node, and the result of a hybrid search (the vector results, the graph
  context, and the tasks found for the nodes of the context, by node id).
\<close>

record scored_point =
  point_id :: val
  point_score :: real
  point_payload :: pdict

datatype cached =
    CachedNode node
  | CachedSearch "scored_point list" "node list \<times> rel list" "(val \<times> node list) list"

definition cached_truthy :: "cached \<Rightarrow> bool" where
  "cached_truthy c = (case c of CachedNode n \<Rightarrow> props n \<noteq> [] | CachedSearch vr gc tc \<Rightarrow> True)"

text \<open>
  The state the functions of \<open>rag_engine\<close> work on: the module's \<open>node_cache\<close>,
  \<open>embedding_cache\<close> and \<open>redis_cache\<close>, the graph store behind the \<open>graph_db\<close>
  argument, and the cold storage. The assignment of \<open>redis_cache\<close> is commented out in
  the module; it is the \<open>RedisCache\<close> the functions and the tests of the module expect.
\<close>

record ('g, 'cs) world =
  node_cache :: "(string, cached) lru_cache"
  embedding_cache :: "(string, real list) lru_cache"
  redis_cache :: "cached redis"
  graph :: 'g
  cold_storage :: 'cs

text \<open>
  The calls the caching functions make on their \<open>graph_db\<close> argument, and
  \<open>store_in_cold_storage\<close>: \<open>update_node(node_id, properties)\<close>,
  \<open>create_relationship(source_id, target_id, rel_type, properties)\<close>,
  \<open>get_node(label, match_props)\<close>, which answers with a list, and
  \<open>execute_query(query, params)\<close>. They are parameters over a store of any type.
\<close>

record ('g, 'cs) collaborators =
  db_update_node :: "string \<Rightarrow> pdict \<Rightarrow> 'g \<Rightarrow> (val, 'g) res"
  db_create_relationship :: "string \<Rightarrow> string \<Rightarrow> string \<Rightarrow> pdict \<Rightarrow> 'g \<Rightarrow> (val, 'g) res"
  db_get_node :: "string \<Rightarrow> pdict \<Rightarrow> 'g \<Rightarrow> (node list, 'g) res"
  db_execute_query :: "query \<Rightarrow> 'g \<Rightarrow> (unit, 'g) res"
  store_in_cold_storage :: "cached \<Rightarrow> 'cs \<Rightarrow> (val, 'cs) res"

subsection \<open>Node caching and invalidation\<close>

definition node_key :: "string \<Rightarrow> string \<Rightarrow> string" where
  "node_key node_type node_id = node_type @ '':'' @ node_id"

definition update_node_access_timestamp ::
  "('g, 'cs) collaborators \<Rightarrow> string \<Rightarrow> ('g, 'cs) world \<Rightarrow> (unit, ('g, 'cs) world) res" where
  "update_node_access_timestamp api node_id w =
     (case db_execute_query api (Query ''access_timestamp'' [] [(''node_id'', VStr node_id)]) (graph w) of
        (r, g) \<Rightarrow> (r, w\<lparr>graph := g\<rparr>))"

text \<open>
  \<open>get_node_with_cache\<close>: the in-process cache, then the distributed cache, then the
  graph store; \<open>now\<close> is the reading of the clock during the call.
\<close>

definition get_node_with_cache ::
  "real \<Rightarrow> ('g, 'cs) collaborators \<Rightarrow> string \<Rightarrow> string \<Rightarrow> ('g, 'cs) world
   \<Rightarrow> (cached option, ('g, 'cs) world) res" where
  "get_node_with_cache now api node_id node_type w =
     (let cache_key = node_key node_type node_id in
      case lru_get now cache_key (node_cache w) of
        (Some cached_node, nc) \<Rightarrow>
          (case update_node_access_timestamp api node_id (w\<lparr>node_cache := nc\<rparr>) of
             (Inl e, w1) \<Rightarrow> (Inl e, w1)
           | (Inr u, w1) \<Rightarrow> (Inr (Some cached_node), w1))
      | (None, nc) \<Rightarrow>
          (case redis_get now cache_key (redis_cache w) of
             (Some cached_node, rc) \<Rightarrow>
               (case lru_set now cache_key cached_node nc of
                  (Inl e, nc') \<Rightarrow> (Inl e, w\<lparr>node_cache := nc', redis_cache := rc\<rparr>)
                | (Inr u, nc') \<Rightarrow>
                    (case update_node_access_timestamp api node_id
                            (w\<lparr>node_cache := nc', redis_cache := rc\<rparr>) of
                       (Inl e, w1) \<Rightarrow> (Inl e, w1)
                     | (Inr u', w1) \<Rightarrow> (Inr (Some cached_node), w1)))
           | (None, rc) \<Rightarrow>
               (case db_get_node api node_type [(''id'', VStr node_id)] (graph w) of
                  (Inl e, g) \<Rightarrow> (Inl e, w\<lparr>node_cache := nc, redis_cache := rc, graph := g\<rparr>)
                | (Inr node_data_list, g) \<Rightarrow>
                    (case node_data_list of
                       [] \<Rightarrow> (Inr None, w\<lparr>node_cache := nc, redis_cache := rc, graph := g\<rparr>)
                     | node_data # _ \<Rightarrow>
                         (case lru_set now cache_key (CachedNode node_data) nc of
                            (Inl e, nc') \<Rightarrow> (Inl e, w\<lparr>node_cache := nc', redis_cache := rc, graph := g\<rparr>)
                          | (Inr u, nc') \<Rightarrow>
                              (case redis_set now cache_key (CachedNode node_data) (Some (4 * 3600)) rc of
                                 (Inl e, rc') \<Rightarrow>
                                   (Inl e, w\<lparr>node_cache := nc', redis_cache := rc', graph := g\<rparr>)
                               | (Inr u', rc') \<Rightarrow>
                                   (case update_node_access_timestamp api node_id
                                           (w\<lparr>node_cache := nc', redis_cache := rc', graph := g\<rparr>) of
                                      (Inl e, w1) \<Rightarrow> (Inl e, w1)
                                    | (Inr u'', w1) \<Rightarrow> (Inr (Some (CachedNode node_data)), w1))))))))"

definition invalidate_node_cache ::
  "string \<Rightarrow> string \<Rightarrow> ('g, 'cs) world \<Rightarrow> (unit, ('g, 'cs) world) res" where
  "invalidate_node_cache node_id node_type w =
     (let cache_key = node_key node_type node_id;
          w1 = w\<lparr>node_cache := lru_delete cache_key (node_cache w)\<rparr>
      in case redis_delete cache_key (redis_cache w1) of
           (r, rc) \<Rightarrow> (r, w1\<lparr>redis_cache := rc\<rparr>))"

definition invalidate_related_query_cache :: "('g, 'cs) world \<Rightarrow> (unit, ('g, 'cs) world) res" where
  "invalidate_related_query_cache w =
     (case redis_flush (redis_cache w) of (r, rc) \<Rightarrow> (r, w\<lparr>redis_cache := rc\<rparr>))"

definition update_node_with_cache ::
  "('g, 'cs) collaborators \<Rightarrow> string \<Rightarrow> string \<Rightarrow> pdict \<Rightarrow> ('g, 'cs) world
   \<Rightarrow> (val, ('g, 'cs) world) res" where
  "update_node_with_cache api node_id node_type node_properties w =
     (case db_update_node api node_id node_properties (graph w) of
        (Inl e, g) \<Rightarrow> (Inl e, w\<lparr>graph := g\<rparr>)
      | (Inr result, g) \<Rightarrow>
          (case invalidate_node_cache node_id node_type (w\<lparr>graph := g\<rparr>) of
             (Inl e, w1) \<Rightarrow> (Inl e, w1)
           | (Inr u, w1) \<Rightarrow>
               if truthy (py_get node_properties ''relationships'')
               then (case invalidate_related_query_cache w1 of
                       (Inl e, w2) \<Rightarrow> (Inl e, w2)
                     | (Inr u', w2) \<Rightarrow> (Inr result, w2))
               else (Inr result, w1)))"

definition create_relationship_with_cache ::
  "('g, 'cs) collaborators \<Rightarrow> string \<Rightarrow> string \<Rightarrow> string \<Rightarrow> string \<Rightarrow> string \<Rightarrow> pdict
   \<Rightarrow> ('g, 'cs) world \<Rightarrow> (val, ('g, 'cs) world) res" where
  "create_relationship_with_cache api source_id source_type target_id target_type rel_type rel_properties w =
     (case db_create_relationship api source_id target_id rel_type rel_properties (graph w) of
        (Inl e, g) \<Rightarrow> (Inl e, w\<lparr>graph := g\<rparr>)
      | (Inr result, g) \<Rightarrow>
          (case invalidate_node_cache source_id source_type (w\<lparr>graph := g\<rparr>) of
             (Inl e, w1) \<Rightarrow> (Inl e, w1)
           | (Inr u, w1) \<Rightarrow>
               (case invalidate_node_cache target_id target_type w1 of
                  (Inl e, w2) \<Rightarrow> (Inl e, w2)
                | (Inr u', w2) \<Rightarrow>
                    (case invalidate_related_query_cache w2 of
                       (Inl e, w3) \<Rightarrow> (Inl e, w3)
                     | (Inr u'', w3) \<Rightarrow>
                         (case invalidate_related_query_cache w3 of
                            (Inl e, w4) \<Rightarrow> (Inl e, w4)
                          | (Inr u''', w4) \<Rightarrow> (Inr result, w4))))))"

text \<open>
  \<open>archive_nodes\<close>: each node of the batch is read through the caches; a node that is
  not found, or whose data is empty, is passed over; the others are written to cold
  storage, marked archived in the graph store, and invalidated.
\<close>

fun archive_nodes ::
  "real \<Rightarrow> ('g, 'cs) collaborators \<Rightarrow> string list \<Rightarrow> string \<Rightarrow> ('g, 'cs) world
   \<Rightarrow> (unit, ('g, 'cs) world) res" where
  "archive_nodes now api [] entity_type w = (Inr (), w)"
| "archive_nodes now api (node_id # node_batch) entity_type w =
     (case get_node_with_cache now api node_id entity_type w of
        (Inl e, w1) \<Rightarrow> (Inl e, w1)
      | (Inr None, w1) \<Rightarrow> archive_nodes now api node_batch entity_type w1
      | (Inr (Some node_data), w1) \<Rightarrow>
          if \<not> cached_truthy node_data then archive_nodes now api node_batch entity_type w1
          else
            (case store_in_cold_storage api node_data (cold_storage w1) of
               (Inl e, cs) \<Rightarrow> (Inl e, w1\<lparr>cold_storage := cs\<rparr>)
             | (Inr archive_reference, cs) \<Rightarrow>
                 (case db_execute_query api
                         (Query ''archive'' (if entity_type = ''Message'' then [''content''] else [])
                            [(''node_id'', VStr node_id), (''archive_reference'', archive_reference)])
                         (graph w1) of
                    (Inl e, g) \<Rightarrow> (Inl e, w1\<lparr>cold_storage := cs, graph := g\<rparr>)
                  | (Inr u, g) \<Rightarrow>
                      (case invalidate_node_cache node_id entity_type
                              (w1\<lparr>cold_storage := cs, graph := g\<rparr>) of
                         (Inl e, w2) \<Rightarrow> (Inl e, w2)
                       | (Inr u', w2) \<Rightarrow> archive_nodes now api node_batch entity_type w2))))"

subsection \<open>Hybrid search\<close>

text \<open>
  \<open>GraphRAGEngine\<close>: the vector store with its search, the embedding service, the
  collection, the threshold and the result limit. \<open>str\<close> of a value and \<open>str(hash(text))\<close>
  are Python's, and parameters here.
\<close>

record 'v rag_engine =
  vector_db :: 'v
  search_vectors :: "'v \<Rightarrow> string \<Rightarrow> real list \<Rightarrow> int \<Rightarrow> py_error + scored_point list"
  generate_embedding :: "string \<Rightarrow> py_error + real list"
  collection_name :: string
  rag_similarity_threshold :: real
  max_results :: int
  py_str :: "val \<Rightarrow> string"
  text_hash :: "string \<Rightarrow> string"

definition get_embedding_with_cache ::
  "real \<Rightarrow> 'v rag_engine \<Rightarrow> string \<Rightarrow> (string, real list) lru_cache
   \<Rightarrow> (real list, (string, real list) lru_cache) res" where
  "get_embedding_with_cache now eng txt c =
     (case lru_get now (text_hash eng txt) c of
        (Some cached_embedding, c1) \<Rightarrow> (Inr cached_embedding, c1)
      | (None, c1) \<Rightarrow>
          (case generate_embedding eng txt of
             Inl e \<Rightarrow> (Inl e, c1)
           | Inr embedding \<Rightarrow>
               (case lru_set now (text_hash eng txt) embedding c1 of
                  (Inl e, c2) \<Rightarrow> (Inl e, c2)
                | (Inr u, c2) \<Rightarrow> (Inr embedding, c2))))"

definition semantic_search ::
  "real \<Rightarrow> 'v rag_engine \<Rightarrow> string \<Rightarrow> val \<Rightarrow> (string, real list) lru_cache
   \<Rightarrow> (scored_point list, (string, real list) lru_cache) res" where
  "semantic_search now eng query_text filters c =
     (case get_embedding_with_cache now eng query_text c of
        (Inl e, c1) \<Rightarrow> (Inl e, c1)
      | (Inr query_embedding, c1) \<Rightarrow>
          (case search_vectors eng (vector_db eng) (collection_name eng) query_embedding (max_results eng) of
             Inl e \<Rightarrow> (Inl e, c1)
           | Inr vector_results \<Rightarrow>
               (Inr (filter (\<lambda>r. point_score r \<ge> rag_similarity_threshold eng) vector_results), c1)))"

text \<open>
  \<open>find_related_tasks\<close>:
  \<open>MATCH (entity)-[:RELATED_TO]-(task:Task) WHERE entity.id = $entity_id AND task.status
  IN [...] RETURN task UNION MATCH (entity)<-[:MENTIONED_IN]-(msg:Message)<-[:EXTRACTED_FROM]-(task:Task)
  WHERE entity.id = $entity_id AND task.status IN [...] RETURN task\<close>; the status
  condition is left out when the filter is empty or \<open>None\<close>.
\<close>

definition status_ok :: "string list option \<Rightarrow> node \<Rightarrow> bool" where
  "status_ok status_filter task =
     (case status_filter of
        None \<Rightarrow> True
      | Some ss \<Rightarrow> ss = [] \<or> list_ex (\<lambda>s. cy_eq (node_prop task ''status'') (VStr s)) ss)"

definition related_rows :: "string list option \<Rightarrow> val \<Rightarrow> graph_db \<Rightarrow> node list" where
  "related_rows status_filter entity_id db =
     concat (map (\<lambda>r.
       if rtype r \<noteq> ''RELATED_TO'' then []
       else (case (node_of db (src r), node_of db (tgt r)) of
               (Some a, Some b) \<Rightarrow>
                 (if cy_eq (node_prop a ''id'') entity_id \<and> has_label ''Task'' b \<and> status_ok status_filter b
                  then [b] else [])
                 @ (if cy_eq (node_prop b ''id'') entity_id \<and> has_label ''Task'' a \<and> status_ok status_filter a
                    then [a] else [])
             | _ \<Rightarrow> [])) (db_rels db))"

definition extracted_rows :: "string list option \<Rightarrow> val \<Rightarrow> graph_db \<Rightarrow> node list" where
  "extracted_rows status_filter entity_id db =
     concat (map (\<lambda>r1.
       if rtype r1 \<noteq> ''MENTIONED_IN'' then []
       else (case (node_of db (src r1), node_of db (tgt r1)) of
               (Some msg, Some entity) \<Rightarrow>
                 if cy_eq (node_prop entity ''id'') entity_id \<and> has_label ''Message'' msg
                 then concat (map (\<lambda>r2.
                        if rtype r2 = ''EXTRACTED_FROM'' \<and> tgt r2 = nid msg
                        then (case node_of db (src r2) of
                                Some task \<Rightarrow>
                                  if has_label ''Task'' task \<and> status_ok status_filter task then [task] else []
                              | None \<Rightarrow> [])
                        else []) (db_rels db))
                 else []
             | _ \<Rightarrow> [])) (db_rels db))"

definition find_related_tasks :: "val \<Rightarrow> string list option \<Rightarrow> graph_db \<Rightarrow> node list \<times> graph_db" where
  "find_related_tasks entity_id status_filter db =
     (union_rows [] (related_rows status_filter entity_id db @ extracted_rows status_filter entity_id db),
      logq (Query ''related_tasks'' (case status_filter of None \<Rightarrow> [] | Some ss \<Rightarrow> ss)
              [(''entity_id'', entity_id)]) db)"

text \<open>
  \<open>task_context[node["id"]] = tasks\<close>: a key equal to one the dict has keeps its place
  and takes the new value.
\<close>

fun dict_set :: "val \<Rightarrow> 'a \<Rightarrow> (val \<times> 'a) list \<Rightarrow> (val \<times> 'a) list" where
  "dict_set k v [] = [(k, v)]"
| "dict_set k v ((k', v') # kvs) =
     (if py_eq k' k then (k', v) # kvs else (k', v') # dict_set k v kvs)"

text \<open>The loop of \<open>hybrid_search\<close> over the nodes of the graph context.\<close>

fun task_contexts ::
  "node list \<Rightarrow> (val \<times> node list) list \<Rightarrow> graph_db \<Rightarrow> ((val \<times> node list) list, graph_db) res" where
  "task_contexts [] task_context db = (Inr task_context, db)"
| "task_contexts (n # ns) task_context db =
     (case py_getitem (props n) ''id'' of
        Inl e \<Rightarrow> (Inl e, db)
      | Inr entity_id \<Rightarrow>
          (case find_related_tasks entity_id (Some [''pending'', ''in_progress'']) db of
             (tasks, db1) \<Rightarrow>
               if tasks = [] then task_contexts ns task_context db1
               else if \<not> hashable entity_id then (Inl TypeError, db1)
               else task_contexts ns (dict_set entity_id tasks task_context) db1))"

definition op_key :: "'v rag_engine \<Rightarrow> string \<Rightarrow> val \<Rightarrow> int \<Rightarrow> string" where
  "op_key eng query_text filters max_hops =
     ''hybrid_search:'' @ query_text @ '':'' @ py_str eng filters @ '':'' @ py_str eng (VInt max_hops)"

definition get_operation_cache :: "real \<Rightarrow> string \<Rightarrow> cached redis \<Rightarrow> cached option \<times> cached redis" where
  "get_operation_cache now key rc = redis_get now key rc"

definition set_operation_cache ::
  "real \<Rightarrow> string \<Rightarrow> cached \<Rightarrow> int \<Rightarrow> cached redis \<Rightarrow> (unit, cached redis) res" where
  "set_operation_cache now key v seconds rc = redis_set now key v (Some seconds) rc"

definition empty_result :: cached where
  "empty_result = CachedSearch [] ([], []) []"

text \<open>
  \<open>hybrid_search\<close>; \<open>now\<close> is the reading of the clock during the call. The traversal
  runs with its default bound of 25 nodes and without type filters.
\<close>

definition hybrid_search ::
  "real \<Rightarrow> 'v rag_engine \<Rightarrow> string \<Rightarrow> val \<Rightarrow> int \<Rightarrow> (graph_db, 'cs) world
   \<Rightarrow> (cached, (graph_db, 'cs) world) res" where
  "hybrid_search now eng query_text filters max_hops w =
     (case get_operation_cache now (op_key eng query_text filters max_hops) (redis_cache w) of
        (Some cached_result, rc) \<Rightarrow> (Inr cached_result, w\<lparr>redis_cache := rc\<rparr>)
      | (None, rc) \<Rightarrow>
          (case semantic_search now eng query_text filters (embedding_cache w) of
             (Inl e, ec) \<Rightarrow> (Inl e, w\<lparr>redis_cache := rc, embedding_cache := ec\<rparr>)
           | (Inr vector_results, ec) \<Rightarrow>
               if map point_id vector_results = []
               then (case set_operation_cache now (op_key eng query_text filters max_hops)
                            empty_result 600 rc of
                       (Inl e, rc') \<Rightarrow> (Inl e, w\<lparr>redis_cache := rc', embedding_cache := ec\<rparr>)
                     | (Inr u, rc') \<Rightarrow> (Inr empty_result, w\<lparr>redis_cache := rc', embedding_cache := ec\<rparr>))
               else
                 (case traverse_from_seeds (map point_id vector_results) max_hops 25 None None (graph w) of
                    (Inl e, db1) \<Rightarrow> (Inl e, w\<lparr>redis_cache := rc, embedding_cache := ec, graph := db1\<rparr>)
                  | (Inr graph_context, db1) \<Rightarrow>
                      (case task_contexts (fst graph_context) [] db1 of
                         (Inl e, db2) \<Rightarrow> (Inl e, w\<lparr>redis_cache := rc, embedding_cache := ec, graph := db2\<rparr>)
                       | (Inr task_context, db2) \<Rightarrow>
                           (case set_operation_cache now (op_key eng query_text filters max_hops)
                                   (CachedSearch vector_results graph_context task_context) 600 rc of
                              (Inl e, rc') \<Rightarrow>
                                (Inl e, w\<lparr>redis_cache := rc', embedding_cache := ec, graph := db2\<rparr>)
                            | (Inr u, rc') \<Rightarrow>
                                (Inr (CachedSearch vector_results graph_context task_context),
                                 w\<lparr>redis_cache := rc', embedding_cache := ec, graph := db2\<rparr>))))))"

text \<open>A key that neither cache tier has an entry for.\<close>

definition uncached :: "string \<Rightarrow> ('g, 'cs) world \<Rightarrow> bool" where
  "uncached key w =
     (map_of (entries (node_cache w)) key = None \<and> map_of (rstore (redis_cache w)) key = None)"

section \<open>Concrete stores and collaborators\<close>

text \<open>
  The inputs at which the theorems below are run: two Person nodes, a fuzzy matcher that
  accepts equal names only, an embedding service that returns the empty vector, and a
  vector store (a list of hits) that answers every search with its content.
\<close>

definition person_alice :: node where
  "person_alice = \<lparr>nid = 0, labels = [''Person''],
     props = [(''id'', VStr ''p1''), (''name'', VStr ''Alice''), (''email'', VStr ''alice@x.com'')]\<rparr>"

definition person_smith :: node where
  "person_smith = \<lparr>nid = 1, labels = [''Person''],
     props = [(''id'', VStr ''p2''), (''name'', VStr ''Alice Smith''), (''email'', VStr ''smith@x.com'')]\<rparr>"

definition two_persons :: graph_db where
  "two_persons = \<lparr>db_nodes = [person_alice, person_smith], db_rels = [], next_id = 2, qlog = []\<rparr>"

definition exact_engine :: "hit list engine" where
  "exact_engine = \<lparr>similarity_threshold = 0.85, fuzzy_match_threshold = 85,
     extract_bests = (\<lambda>q choices cutoff limit. Inr (map (\<lambda>c. (c, 100)) (filter (\<lambda>c. c = q) choices))),
     get_embedding = (\<lambda>t. Inr []),
     vector_search = (\<lambda>vs collection v limit. Inr vs),
     upsert_embedding = (\<lambda>collection i v p vs. (Inr (), vs)),
     fromisoformat = (\<lambda>s. None)\<rparr>"

text \<open>
  Three nodes \<open>s\<close>, \<open>x\<close>, \<open>y\<close> with the relationships \<open>s \<rightarrow> x\<close>, \<open>s \<rightarrow> y\<close> and
  \<open>x \<rightarrow> y\<close>.
\<close>

definition task_s :: node where
  "task_s = \<lparr>nid = 0, labels = [''Task''], props = [(''id'', VStr ''s'')]\<rparr>"

definition task_x :: node where
  "task_x = \<lparr>nid = 1, labels = [''Task''], props = [(''id'', VStr ''x'')]\<rparr>"

definition task_y :: node where
  "task_y = \<lparr>nid = 2, labels = [''Task''], props = [(''id'', VStr ''y'')]\<rparr>"

definition dep :: "nat \<Rightarrow> nat \<Rightarrow> nat \<Rightarrow> rel" where
  "dep i a b = \<lparr>rid = i, rtype = ''DEPENDS_ON'', src = a, tgt = b, rprops = [(''blocking'', VBool True)]\<rparr>"

definition triangle :: graph_db where
  "triangle = \<lparr>db_nodes = [task_s, task_x, task_y],
     db_rels = [dep 3 0 1, dep 4 0 2, dep 5 1 2], next_id = 6, qlog = []\<rparr>"

text \<open>
  The two persons with a message, an organization and a user around them: both persons
  authored the message, \<open>p1\<close> is affiliated with the organization, and the user knows
  \<open>p1\<close>.
\<close>

definition link :: "nat \<Rightarrow> string \<Rightarrow> nat \<Rightarrow> nat \<Rightarrow> rel" where
  "link i t a b = \<lparr>rid = i, rtype = t, src = a, tgt = b, rprops = []\<rparr>"

definition persons_linked :: graph_db where
  "persons_linked = \<lparr>db_nodes = [person_alice, person_smith,
       \<lparr>nid = 2, labels = [''Message''], props = [(''id'', VStr ''m1'')]\<rparr>,
       \<lparr>nid = 3, labels = [''Organization''], props = [(''id'', VStr ''o1'')]\<rparr>,
       \<lparr>nid = 4, labels = [''User''], props = [(''id'', VStr ''u1'')]\<rparr>],
     db_rels = [link 10 ''AUTHORED'' 0 2, link 11 ''AUTHORED'' 1 2,
                link 12 ''AFFILIATED_WITH'' 0 3, link 13 ''USER_KNOWS'' 4 0],
     next_id = 14, qlog = []\<rparr>"

text \<open>
  A Person node without any property, the author of two messages, and the hints of a
  candidate that names both messages.
\<close>

definition bare_person :: node where
  "bare_person = \<lparr>nid = 0, labels = [''Person''], props = []\<rparr>"

definition bare_person_linked :: graph_db where
  "bare_person_linked = \<lparr>db_nodes = [bare_person,
       \<lparr>nid = 1, labels = [''Message''], props = [(''id'', VStr ''m1'')]\<rparr>,
       \<lparr>nid = 2, labels = [''Message''], props = [(''id'', VStr ''m2'')]\<rparr>],
     db_rels = [link 3 ''AUTHORED'' 0 1, link 4 ''AUTHORED'' 0 2],
     next_id = 5, qlog = []\<rparr>"

definition related_to :: "string \<Rightarrow> string \<Rightarrow> pdict" where
  "related_to a b = [(''relationships'',
       VList [VDict [(''target_id'', VStr a)], VDict [(''target_id'', VStr b)]])]"

text \<open>
  A store built through the adapter alone: the persons \<open>p1\<close> and \<open>p2\<close>, a Person and
  an Organization that both have the id \<open>x\<close> (the uniqueness constraint on \<open>id\<close> is
  one per label), \<open>p1\<close> the same as the Person \<open>x\<close>, and \<open>p2\<close> the same as the
  Organization \<open>x\<close>.
\<close>

definition empty_store :: graph_db where
  "empty_store = \<lparr>db_nodes = [], db_rels = [], next_id = 0, qlog = []\<rparr>"

definition shared_id_store :: graph_db where
  "shared_id_store =
     (let db1 = snd (create_node ''Person'' [(''id'', VStr ''p1'')] empty_store);
          db2 = snd (create_node ''Person'' [(''id'', VStr ''p2'')] db1);
          db3 = snd (create_node ''Person'' [(''id'', VStr ''x'')] db2);
          db4 = snd (create_node ''Organization'' [(''id'', VStr ''x'')] db3);
          db5 = snd (create_relationship ''Person'' ''Person'' ''SAME_AS''
                       [(''id'', VStr ''p1'')] [(''id'', VStr ''x'')] [] db4)
      in snd (create_relationship ''Person'' ''Organization'' ''SAME_AS''
                [(''id'', VStr ''p2'')] [(''id'', VStr ''x'')] [] db5))"






section \<open>Properties of the normalisers\<close>

text \<open>
  C10. The phone normaliser keeps only characters for which \<open>isdigit\<close> holds, it is
  idempotent, and it returns a string of digits unchanged.
\<close>

theorem normalize_phone_digits_idempotent:
  "(\<forall>c \<in> set (normalize_phone s). isdigit c)
   \<and> normalize_phone (normalize_phone s) = normalize_phone s
   \<and> ((\<forall>c \<in> set s. isdigit c) \<longrightarrow> normalize_phone s = s)"
  by (simp add: normalize_phone_def)

theorem normalize_phone_digits_idempotent_witness:
  "normalize_phone ''+1 (555) 010-9999'' = ''15550109999''
   \<and> normalize_phone (normalize_phone ''+1 (555) 010-9999'') = ''15550109999''
   \<and> normalize_phone ''15550109999'' = ''15550109999''"
proof -
  have digits: "\<forall>c \<in> set ''15550109999''. isdigit c"
    by (simp add: isdigit_def)
  have run: "normalize_phone ''+1 (555) 010-9999'' = ''15550109999''"
    by (simp add: normalize_phone_def isdigit_def)
  from normalize_phone_digits_idempotent [of "''+1 (555) 010-9999''"]
  have idem: "normalize_phone (normalize_phone ''+1 (555) 010-9999'') = normalize_phone ''+1 (555) 010-9999''"
    by blast
  from normalize_phone_digits_idempotent [of "''15550109999''"] digits
  have fixed: "normalize_phone ''15550109999'' = ''15550109999''"
    by blast
  show ?thesis using run idem fixed by simp
qed

section \<open>Properties of the in-process cache\<close>












section \<open>Validation in the graph store adapter\<close>

text \<open>
  The four operations that create or merge reject an unknown label, an unknown
  relationship type, a property outside the declared set and an undeclared source or
  target label, and leave the store as it was, its query log included.
\<close>

lemma create_and_merge_validate:
  "(map_of NODE_TYPES label = None \<longrightarrow>
      create_node label ps db = (Inl ValueError, db) \<and> merge_node label ps db = (Inl ValueError, db))
   \<and> (map_of NODE_TYPES label = Some allowed \<and> p \<in> fst ` set ps \<and> map_of allowed p = None \<longrightarrow>
      create_node label ps db = (Inl ValueError, db) \<and> merge_node label ps db = (Inl ValueError, db))
   \<and> (map_of RELATIONSHIP_TYPES rel_type = None
        \<or> (map_of RELATIONSHIP_TYPES rel_type = Some sch
            \<and> (from_label \<notin> set (valid_sources sch) \<or> to_label \<notin> set (valid_targets sch)
               \<or> (q \<in> fst ` set rel_props \<and> q \<notin> set (properties sch)))) \<longrightarrow>
      create_relationship from_label to_label rel_type from_props to_props rel_props db = (Inl ValueError, db)
      \<and> merge_relationship from_label to_label rel_type from_props to_props rel_props db = (Inl ValueError, db))"
  by (auto simp: create_node_def merge_node_def create_relationship_def merge_relationship_def
      validate_relationship_def list_ex_iff)

text \<open>
  C4 fails for \<open>update_node\<close>, which checks nothing: on a store holding one Person
  \<open>p1\<close>, updating the undeclared property \<open>foo\<close> raises no error and writes the
  property, and an update under the unknown label \<open>Alien\<close> raises no error either.
\<close>

theorem update_node_skips_validation:
  "map_of NODE_TYPES ''Alien'' = None
   \<and> list_ex (\<lambda>prop. map_of (the (map_of NODE_TYPES ''Person'')) prop = None) [''foo'']
   \<and> update_node ''Person'' [(''id'', VStr ''p1'')] [(''foo'', VStr ''bar'')]
        \<lparr>db_nodes = [\<lparr>nid = 0, labels = [''Person''], props = [(''id'', VStr ''p1'')]\<rparr>],
         db_rels = [], next_id = 1, qlog = []\<rparr>
     = (Inr [\<lparr>nid = 0, labels = [''Person''], props = [(''id'', VStr ''p1''), (''foo'', VStr ''bar'')]\<rparr>],
        \<lparr>db_nodes = [\<lparr>nid = 0, labels = [''Person''],
                      props = [(''id'', VStr ''p1''), (''foo'', VStr ''bar'')]\<rparr>],
         db_rels = [], next_id = 1,
         qlog = [Query ''update_node'' [''Person'', ''id'', ''foo'']
                   [(''id'', VStr ''p1''), (''update_foo'', VStr ''bar'')]]\<rparr>)
   \<and> fst (update_node ''Alien'' [(''id'', VStr ''p1'')] [(''name'', VStr ''x'')]
        \<lparr>db_nodes = [\<lparr>nid = 0, labels = [''Person''], props = [(''id'', VStr ''p1'')]\<rparr>],
         db_rels = [], next_id = 1, qlog = []\<rparr>) = Inr []"
  by (simp add: NODE_TYPES_def update_node_def update_params_def logq_def has_label_def
      node_prop_def cy_eq_def py_get_def set_props_def set_prop_def)

section \<open>Resolution order\<close>

lemma logq_frame [simp]:
  "db_nodes (logq q db) = db_nodes db" "db_rels (logq q db) = db_rels db"
  "next_id (logq q db) = next_id db" "qlog (logq q db) = qlog db @ [q]"
  by (simp_all add: logq_def)

lemma cy_eq_prop_nonempty: "cy_eq (node_prop e k) v \<Longrightarrow> props e \<noteq> []"
  by (auto simp: cy_eq_def node_prop_def py_get_def split: if_splits)

lemma try_identifiers_hit:
  "try_identifiers ty ids db = (Some e, db') \<Longrightarrow> props e \<noteq> [] \<and> e \<in> set (db_nodes db)"
proof (induction ty ids db rule: try_identifiers.induct)
  case (1 ty db)
  then show ?case by simp
next
  case (2 ty p v rest db)
  show ?case
  proof (cases "truthy v")
    case False
    with 2 show ?thesis by simp
  next
    case True
    let ?hits = "filter (\<lambda>e. has_label ty e \<and> cy_eq (node_prop e p) v) (db_nodes db)"
    show ?thesis
    proof (cases ?hits)
      case Nil
      with True 2 show ?thesis by (simp add: q_match_property_def)
    next
      case (Cons h hs)
      then have "h \<in> set ?hits" by simp
      then have "h \<in> set (db_nodes db)" "cy_eq (node_prop h p) v" by auto
      moreover from Cons True 2(3) have "e = h" by (simp add: q_match_property_def)
      ultimately show ?thesis using cy_eq_prop_nonempty by blast
    qed
  qed
qed

lemma try_identifiers_frame:
  "try_identifiers ty ids db = (r, db') \<Longrightarrow> db_nodes db' = db_nodes db \<and> db_rels db' = db_rels db"
  by (induction ty ids db rule: try_identifiers.induct)
     (auto simp: q_match_property_def split: list.splits prod.splits if_splits)

lemma node_truthy_None [simp]: "\<not> node_truthy None"
  by (simp add: node_truthy_def)

lemma match_by_identifiers_hit:
  "match_by_identifiers d ty db = (Inr (Some e), db') \<Longrightarrow> node_truthy (Some e)"
  by (auto simp: match_by_identifiers_def node_truthy_def split: sum.splits prod.splits
      dest: try_identifiers_hit)

lemma q_by_id_hit: "q_by_id ty i db = (e # es, db') \<Longrightarrow> props e \<noteq> []"
proof -
  assume "q_by_id ty i db = (e # es, db')"
  then have "e \<in> set (filter (has_label ty) (nodes_with_id db i))"
    by (auto simp: q_by_id_def)
  then have "cy_eq (node_prop e ''id'') i" by (simp add: nodes_with_id_def)
  then show ?thesis by (rule cy_eq_prop_nonempty)
qed

lemma match_by_fuzzy_name_hit:
  "match_by_fuzzy_name eng d ty db = (Inr (Some e), db') \<Longrightarrow> node_truthy (Some e)"
  by (auto simp: match_by_fuzzy_name_def node_truthy_def Let_def
      split: if_splits sum.splits prod.splits list.splits option.splits dest: q_by_id_hit)

lemma try_hits_hit:
  "try_hits th ty hs db = (Inr (Some e), db') \<Longrightarrow> props e \<noteq> []"
  by (induction th ty hs db rule: try_hits.induct)
     (auto split: if_splits sum.splits prod.splits list.splits dest: q_by_id_hit)

lemma match_by_embedding_hit:
  "match_by_embedding eng vs d ty db = (Inr (Some e), db') \<Longrightarrow> node_truthy (Some e)"
  by (auto simp: match_by_embedding_def node_truthy_def Let_def
      split: if_splits sum.splits dest: try_hits_hit)

lemma match_by_identifiers_frame:
  "match_by_identifiers d ty db = (r, db') \<Longrightarrow> db_nodes db' = db_nodes db \<and> db_rels db' = db_rels db"
  by (auto simp: match_by_identifiers_def split: sum.splits prod.splits dest: try_identifiers_frame)

lemma match_by_fuzzy_name_frame:
  "match_by_fuzzy_name eng d ty db = (r, db') \<Longrightarrow> db_nodes db' = db_nodes db \<and> db_rels db' = db_rels db"
  by (auto simp: match_by_fuzzy_name_def Let_def q_candidates_def q_by_id_def
      split: if_splits sum.splits prod.splits list.splits option.splits)

lemma try_hits_frame:
  "try_hits th ty hs db = (r, db') \<Longrightarrow> db_nodes db' = db_nodes db \<and> db_rels db' = db_rels db"
  by (induction th ty hs db rule: try_hits.induct)
     (auto simp: q_by_id_def split: if_splits sum.splits prod.splits list.splits)

lemma match_by_embedding_frame:
  "match_by_embedding eng vs d ty db = (r, db') \<Longrightarrow> db_nodes db' = db_nodes db \<and> db_rels db' = db_rels db"
  by (auto simp: match_by_embedding_def Let_def split: if_splits sum.splits dest: try_hits_frame)

lemma first_max_mem: "first_max f xs = Some x \<Longrightarrow> x \<in> set xs"
  by (induction xs arbitrary: x) (auto split: option.splits if_splits)

lemma match_by_relationships_hit:
  "match_by_relationships d ty db = (Inr (Some e), db') \<Longrightarrow> e \<in> set (db_nodes db)"
  by (auto simp: match_by_relationships_def q_relationship_overlap_def
      split: if_splits sum.splits prod.splits list.splits option.splits dest!: first_max_mem)

lemma match_by_relationships_frame:
  "match_by_relationships d ty db = (r, db') \<Longrightarrow> db_nodes db' = db_nodes db \<and> db_rels db' = db_rels db"
  by (auto simp: match_by_relationships_def q_relationship_overlap_def
      split: if_splits sum.splits prod.splits list.splits option.splits)

text \<open>
  The order of the strategies: a hit of the identifier strategy is returned whatever a
  later strategy would find, and a later strategy is consulted only when every earlier
  one found nothing. The result of the relationship strategy goes through the same
  truth test as the others.
\<close>

lemma resolve_entity_first_hit:
  "(match_by_identifiers d ty db = (Inr (Some e), dba)
      \<longrightarrow> resolve_entity eng vs d ty db = (Inr (Some e), dba))
   \<and> (match_by_identifiers d ty db = (Inr None, dba)
       \<and> match_by_fuzzy_name eng d ty dba = (Inr (Some e), dbb)
      \<longrightarrow> resolve_entity eng vs d ty db = (Inr (Some e), dbb))
   \<and> (match_by_identifiers d ty db = (Inr None, dba)
       \<and> match_by_fuzzy_name eng d ty dba = (Inr None, dbb)
       \<and> match_by_embedding eng vs d ty dbb = (Inr (Some e), dbc)
      \<longrightarrow> resolve_entity eng vs d ty db = (Inr (Some e), dbc))
   \<and> (match_by_identifiers d ty db = (Inr None, dba)
       \<and> match_by_fuzzy_name eng d ty dba = (Inr None, dbb)
       \<and> match_by_embedding eng vs d ty dbb = (Inr None, dbc)
       \<and> match_by_relationships d ty dbc = (Inr m, dbd)
      \<longrightarrow> resolve_entity eng vs d ty db = (Inr (if node_truthy m then m else None), dbd))"
proof (intro conjI impI)
  assume "match_by_identifiers d ty db = (Inr (Some e), dba)"
  then show "resolve_entity eng vs d ty db = (Inr (Some e), dba)"
    using match_by_identifiers_hit [of d ty db e dba] by (simp add: resolve_entity_def)
next
  assume "match_by_identifiers d ty db = (Inr None, dba)
    \<and> match_by_fuzzy_name eng d ty dba = (Inr (Some e), dbb)"
  then show "resolve_entity eng vs d ty db = (Inr (Some e), dbb)"
    using match_by_fuzzy_name_hit [of eng d ty dba e dbb] by (simp add: resolve_entity_def)
next
  assume "match_by_identifiers d ty db = (Inr None, dba)
    \<and> match_by_fuzzy_name eng d ty dba = (Inr None, dbb)
    \<and> match_by_embedding eng vs d ty dbb = (Inr (Some e), dbc)"
  then show "resolve_entity eng vs d ty db = (Inr (Some e), dbc)"
    using match_by_embedding_hit [of eng vs d ty dbb e dbc] by (simp add: resolve_entity_def)
next
  assume "match_by_identifiers d ty db = (Inr None, dba)
    \<and> match_by_fuzzy_name eng d ty dba = (Inr None, dbb)
    \<and> match_by_embedding eng vs d ty dbb = (Inr None, dbc)
    \<and> match_by_relationships d ty dbc = (Inr m, dbd)"
  then show "resolve_entity eng vs d ty db = (Inr (if node_truthy m then m else None), dbd)"
    by (simp add: resolve_entity_def)
qed

lemmas resolution_run = match_by_identifiers_def identifiers_of_def person_identifiers_def has_key_def
  py_get_def q_match_property_def has_label_def cy_eq_def node_prop_def logq_def person_alice_def
  person_smith_def two_persons_def exact_engine_def match_by_fuzzy_name_def name_field_of_def
  q_candidates_def py_eq_def q_by_id_def nodes_with_id_def match_by_embedding_def py_getitem_def
  match_by_relationships_def Let_def

lemmas overlap_run = q_relationship_overlap_def shared_count_def node_of_def related_to_def
  target_of_def resolve_entity_def node_truthy_def link_def

text \<open>
  The order at work on the two persons: the e-mail address of \<open>p1\<close> wins over the name
  of \<open>p2\<close>; the name alone finds \<open>p2\<close>; a vector hit finds \<open>p1\<close> when identifiers and
  name find nothing; and nothing is found when all four strategies miss.
\<close>

lemma resolve_entity_two_persons:
  "fst (match_by_fuzzy_name exact_engine
          [(''name'', VStr ''Alice Smith''), (''email'', VStr ''alice@x.com'')] ''Person'' two_persons)
     = Inr (Some person_smith)
   \<and> fst (resolve_entity exact_engine []
          [(''name'', VStr ''Alice Smith''), (''email'', VStr ''alice@x.com'')] ''Person'' two_persons)
     = Inr (Some person_alice)
   \<and> fst (resolve_entity exact_engine [] [(''name'', VStr ''Alice Smith'')] ''Person'' two_persons)
     = Inr (Some person_smith)
   \<and> fst (resolve_entity exact_engine [\<lparr>score = 0.9, payload = [(''id'', VStr ''p1'')]\<rparr>]
          [(''name'', VStr ''Bob'')] ''Person'' two_persons)
     = Inr (Some person_alice)
   \<and> fst (resolve_entity exact_engine [] [(''name'', VStr ''Bob'')] ''Person'' two_persons) = Inr None"
  by (simp add: resolution_run resolve_entity_def node_truthy_def)

text \<open>
  C1. \<open>resolve_entity\<close> does not always return the hit of the first strategy that has
  one. On a store where a Person node without any property is the author of the
  messages \<open>m1\<close> and \<open>m2\<close>, a candidate whose relationships name both messages is
  missed by the identifier, name and embedding strategies and found by the relationship
  strategy, which returns that node; \<open>resolve_entity\<close> tests the node with
  \<open>if relationship_match:\<close>, a node without properties is false there, and the
  answer is \<open>None\<close>. On the store of \<open>p1\<close> and \<open>p2\<close>, where the node found has
  properties, the same path returns the hit of the relationship strategy.
\<close>

theorem resolve_entity_drops_relationship_hit:
  "fst (match_by_identifiers (related_to ''m1'' ''m2'') ''Person'' bare_person_linked) = Inr None
   \<and> fst (match_by_fuzzy_name exact_engine (related_to ''m1'' ''m2'') ''Person'' bare_person_linked) = Inr None
   \<and> fst (match_by_embedding exact_engine [] (related_to ''m1'' ''m2'') ''Person'' bare_person_linked) = Inr None
   \<and> fst (match_by_relationships (related_to ''m1'' ''m2'') ''Person'' bare_person_linked)
       = Inr (Some bare_person)
   \<and> fst (resolve_entity exact_engine [] (related_to ''m1'' ''m2'') ''Person'' bare_person_linked)
       = Inr None
   \<and> fst (match_by_relationships (related_to ''m1'' ''o1'') ''Person'' persons_linked)
       = Inr (Some person_alice)
   \<and> fst (resolve_entity exact_engine [] (related_to ''m1'' ''o1'') ''Person'' persons_linked)
       = Inr (Some person_alice)"
  by (simp add: resolution_run overlap_run bare_person_def bare_person_linked_def persons_linked_def)

text \<open>
  The candidate of that run does carry relationship hints, so the relationship strategy
  runs its query, and the node it returns is the one the truth test rejects.
\<close>

theorem resolve_entity_drops_relationship_hit_witness:
  "has_key (related_to ''m1'' ''m2'') ''relationships''
   \<and> truthy (py_get (related_to ''m1'' ''m2'') ''relationships'')
   \<and> fst (match_by_relationships (related_to ''m1'' ''m2'') ''Person'' bare_person_linked)
       = Inr (Some bare_person)
   \<and> node_truthy (Some bare_person) = False
   \<and> fst (resolve_entity exact_engine [] (related_to ''m1'' ''m2'') ''Person'' bare_person_linked)
       = Inr None"
  using resolve_entity_drops_relationship_hit
  by (simp add: related_to_def has_key_def py_get_def node_truthy_def bare_person_def)

section \<open>Merged nodes and resolution\<close>

lemmas merge_run = merge_entities_def q_by_id_def nodes_with_id_def has_label_def cy_eq_def node_prop_def
  py_get_def logq_def person_alice_def person_smith_def two_persons_def exact_engine_def
  merge_properties_def skip_key_def merge_conflict_def endswith_def next_merged_count_def
  q_set_properties_def set_props_def set_prop_def transfer_relationships_def q_outgoing_def
  q_incoming_def List.map_filter_def q_mark_merged_def update_entity_embedding_def get_or_empty_def
  has_key_def py_prefix100_def Let_def

lemma merge_alice_into_smith:
  "db_nodes (fst (snd (merge_entities exact_engine (VStr ''p1'') (VStr ''p2'') ''Person'' ''newer_wins''
        (VStr ''2024-01-01T00:00:00'') (two_persons, []))))
   = [\<lparr>nid = 0, labels = [''Person''],
       props = [(''id'', VStr ''p1''), (''name'', VStr ''Alice''), (''email'', VStr ''alice@x.com''),
                (''merged'', VBool True), (''merged_into'', VStr ''p2''),
                (''merged_at'', VStr ''2024-01-01T00:00:00'')]\<rparr>,
      \<lparr>nid = 1, labels = [''Person''],
       props = [(''id'', VStr ''p2''), (''name'', VStr ''Alice Smith''), (''email'', VStr ''smith@x.com''),
                (''merged_count'', VInt 1)]\<rparr>]"
  by (simp add: merge_run)

text \<open>
  C2 fails in its second half. Merging Person \<open>p1\<close> into Person \<open>p2\<close> completes and
  marks \<open>p1\<close> as merged into \<open>p2\<close>; a later \<open>resolve_entity\<close> by the e-mail address
  of \<open>p1\<close>, or by its name, still returns the node \<open>p1\<close> itself, since no query of the
  four strategies looks at \<open>merged\<close>.
\<close>

theorem resolve_returns_merged_source:
  "fst (merge_entities exact_engine (VStr ''p1'') (VStr ''p2'') ''Person'' ''newer_wins''
        (VStr ''2024-01-01T00:00:00'') (two_persons, []))
     = Inr \<lparr>nid = 1, labels = [''Person''],
         props = [(''id'', VStr ''p2''), (''name'', VStr ''Alice Smith''), (''email'', VStr ''smith@x.com''),
                  (''merged_count'', VInt 1)]\<rparr>
   \<and> fst (resolve_entity exact_engine [] [(''email'', VStr ''alice@x.com'')] ''Person''
        (fst (snd (merge_entities exact_engine (VStr ''p1'') (VStr ''p2'') ''Person'' ''newer_wins''
          (VStr ''2024-01-01T00:00:00'') (two_persons, [])))))
     = Inr (Some \<lparr>nid = 0, labels = [''Person''],
         props = [(''id'', VStr ''p1''), (''name'', VStr ''Alice''), (''email'', VStr ''alice@x.com''),
                  (''merged'', VBool True), (''merged_into'', VStr ''p2''),
                  (''merged_at'', VStr ''2024-01-01T00:00:00'')]\<rparr>)
   \<and> fst (resolve_entity exact_engine [] [(''name'', VStr ''Alice'')] ''Person''
        (fst (snd (merge_entities exact_engine (VStr ''p1'') (VStr ''p2'') ''Person'' ''newer_wins''
          (VStr ''2024-01-01T00:00:00'') (two_persons, [])))))
     = Inr (Some \<lparr>nid = 0, labels = [''Person''],
         props = [(''id'', VStr ''p1''), (''name'', VStr ''Alice''), (''email'', VStr ''alice@x.com''),
                  (''merged'', VBool True), (''merged_into'', VStr ''p2''),
                  (''merged_at'', VStr ''2024-01-01T00:00:00'')]\<rparr>)"
proof -
  let ?st = "merge_entities exact_engine (VStr ''p1'') (VStr ''p2'') ''Person'' ''newer_wins''
        (VStr ''2024-01-01T00:00:00'') (two_persons, [])"
  have merged: "fst ?st = Inr \<lparr>nid = 1, labels = [''Person''],
         props = [(''id'', VStr ''p2''), (''name'', VStr ''Alice Smith''), (''email'', VStr ''smith@x.com''),
                  (''merged_count'', VInt 1)]\<rparr>"
    by (simp add: merge_run)
  let ?marked = "\<lparr>nid = 0, labels = [''Person''],
         props = [(''id'', VStr ''p1''), (''name'', VStr ''Alice''), (''email'', VStr ''alice@x.com''),
                  (''merged'', VBool True), (''merged_into'', VStr ''p2''),
                  (''merged_at'', VStr ''2024-01-01T00:00:00'')]\<rparr>"
  let ?kept = "\<lparr>nid = 1, labels = [''Person''],
         props = [(''id'', VStr ''p2''), (''name'', VStr ''Alice Smith''), (''email'', VStr ''smith@x.com''),
                  (''merged_count'', VInt 1)]\<rparr>"
  have nodes: "db_nodes (fst (snd ?st)) = [?marked, ?kept]"
    by (rule merge_alice_into_smith)
  have email_any: "fst (resolve_entity exact_engine [] [(''email'', VStr ''alice@x.com'')] ''Person'' db)
      = Inr (Some ?marked)" if "db_nodes db = [?marked, ?kept]" for db
    using that
    by (simp add: resolve_entity_def match_by_identifiers_def identifiers_of_def person_identifiers_def
        has_key_def py_get_def q_match_property_def has_label_def cy_eq_def node_prop_def
        node_truthy_def)
  have name_any: "fst (resolve_entity exact_engine [] [(''name'', VStr ''Alice'')] ''Person'' db)
      = Inr (Some ?marked)" if "db_nodes db = [?marked, ?kept]" for db
    using that
    by (simp add: resolve_entity_def match_by_identifiers_def identifiers_of_def person_identifiers_def
        has_key_def py_get_def has_label_def cy_eq_def node_prop_def node_truthy_def
        match_by_fuzzy_name_def name_field_of_def q_candidates_def py_eq_def q_by_id_def
        nodes_with_id_def exact_engine_def Let_def)
  have by_email: "fst (resolve_entity exact_engine [] [(''email'', VStr ''alice@x.com'')] ''Person'' (fst (snd ?st)))
     = Inr (Some ?marked)"
    using nodes by (rule email_any)
  have by_name: "fst (resolve_entity exact_engine [] [(''name'', VStr ''Alice'')] ''Person'' (fst (snd ?st)))
     = Inr (Some ?marked)"
    using nodes by (rule name_any)
  show ?thesis using merged by_email by_name by simp
qed

section \<open>Traversal: termination, the node cap and the visited set\<close>

lemma expand_records_bound:
  "expand_records c h v recs (q, n, r) = Inr (q', n', r') \<Longrightarrow> int (length n) < max c 1
   \<Longrightarrow> int (length n') \<le> max c 1"
proof (induction c h v recs "(q, n, r)" arbitrary: q n r rule: expand_records.induct)
  case (1 c h v acc)
  then show ?case by simp
next
  case (2 c h v m e recs q n r)
  from "2.prems" obtain new where new: "new_neighbour v m = Inr new"
    by (auto split: sum.splits)
  let ?q = "case new of None \<Rightarrow> q | Some i \<Rightarrow> q @ [(i, h + 1)]"
  let ?n = "case new of None \<Rightarrow> n | Some i \<Rightarrow> n @ [m]"
  let ?r = "if rprops e \<noteq> [] then r @ [e] else r"
  have step: "length ?n \<le> Suc (length n)"
    by (cases new) auto
  show ?case
  proof (cases "int (length ?n) \<ge> c")
    case True
    with "2.prems" new have "n' = ?n"
      by (auto simp: Let_def)
    with "2.prems"(2) show ?thesis by (cases new) (auto simp: max_def split: if_splits)
  next
    case False
    with "2.prems" new have run: "expand_records c h v recs (?q, ?n, ?r) = Inr (q', n', r')"
      by (auto simp: Let_def)
    from False have "int (length ?n) < max c 1" by simp
    then show ?thesis
      using "2.hyps" new False run by simp
  qed
qed

lemma traverse_loop_bound:
  "traverse_loop mh c rf nf q v n r db = (Inr (n', r'), db') \<Longrightarrow> int (length n) < max c 1
   \<Longrightarrow> int (length n') \<le> max c 1"
proof (induction mh c rf nf q v n r db rule: traverse_loop.induct)
  case (1 mh c rf nf v n r db)
  then show ?case by simp
next
  case (2 mh c rf nf cur hop q v n r db)
  show ?case
  proof (cases "hop > mh")
    case True
    with 2 show ?thesis by simp
  next
    case notfar: False
    show ?thesis
    proof (cases "hashable cur")
      case False
      with notfar 2 show ?thesis by simp
    next
      case hash: True
      show ?thesis
      proof (cases "in_visited cur v")
        case True
        with notfar hash 2 show ?thesis by simp
      next
        case fresh: False
        obtain x dbx where ex: "expand_from_node cur c rf nf db = (x, dbx)"
          by (cases "expand_from_node cur c rf nf db")
        show ?thesis
        proof (cases x)
          case (Inl e)
          with notfar hash fresh ex "2.prems" show ?thesis by simp
        next
          case (Inr results)
          show ?thesis
          proof (cases "expand_records c hop (py_norm cur # v) results (q, n, r)")
            case (Inl e)
            with notfar hash fresh ex Inr "2.prems" show ?thesis by simp
          next
            case inner: (Inr acc)
            obtain q1 n1 r1 where acc: "acc = (q1, n1, r1)" by (cases acc) auto
            from inner acc "2.prems"(2) have b1: "int (length n1) \<le> max c 1"
              using expand_records_bound by blast
            show ?thesis
            proof (cases "int (length n1) \<ge> c")
              case True
              with notfar hash fresh ex Inr inner acc "2.prems" have "n' = n1" by simp
              with b1 show ?thesis by simp
            next
              case False
              with notfar hash fresh ex Inr inner acc "2.prems"
              have run: "traverse_loop mh c rf nf q1 (py_norm cur # v) n1 r1 dbx = (Inr (n', r'), db')"
                by simp
              from False have "int (length n1) < max c 1" by simp
              with "2.IH"(3) [OF notfar _ _ ex [symmetric] Inr inner acc [symmetric] refl False run]
                hash fresh
              show ?thesis by simp
            qed
          qed
        qed
      qed
    qed
  qed
qed

lemma expand_from_node_log:
  "expand_from_node cur c rf nf db = (x, dbx) \<Longrightarrow>
     \<exists>e. qlog dbx = qlog db @ [e] \<and> expanded_ids [e] = [py_norm cur]
       \<and> db_nodes dbx = db_nodes db \<and> db_rels dbx = db_rels db"
  by (auto simp: expand_from_node_def Let_def logq_def expanded_ids_def py_get_def split: if_splits)

lemma expanded_ids_append: "expanded_ids (xs @ ys) = expanded_ids xs @ expanded_ids ys"
  by (simp add: expanded_ids_def)

lemma traverse_loop_log:
  "traverse_loop mh c rf nf q v n r db = (res, db') \<Longrightarrow>
     \<exists>new. qlog db' = qlog db @ new \<and> distinct (expanded_ids new)
        \<and> set (expanded_ids new) \<inter> set v = {}
        \<and> db_nodes db' = db_nodes db \<and> db_rels db' = db_rels db"
proof (induction mh c rf nf q v n r db rule: traverse_loop.induct)
  case (1 mh c rf nf v n r db)
  then show ?case by (simp add: expanded_ids_def)
next
  case (2 mh c rf nf cur hop q v n r db)
  have none: "\<exists>new. qlog db = qlog db @ new \<and> distinct (expanded_ids new)
        \<and> set (expanded_ids new) \<inter> set v = {}"
    by (rule exI [of _ "[]"]) (simp add: expanded_ids_def)
  show ?case
  proof (cases "hop > mh")
    case True
    with 2 show ?thesis by simp
  next
    case notfar: False
    show ?thesis
    proof (cases "hashable cur")
      case False
      with notfar "2.prems" none show ?thesis by simp
    next
      case hash: True
      show ?thesis
      proof (cases "in_visited cur v")
        case True
        with notfar hash 2 show ?thesis by simp
      next
        case fresh: False
        obtain x dbx where ex: "expand_from_node cur c rf nf db = (x, dbx)"
          by (cases "expand_from_node cur c rf nf db")
        from expand_from_node_log [OF ex] obtain e where
          e: "qlog dbx = qlog db @ [e]" "expanded_ids [e] = [py_norm cur]"
             "db_nodes dbx = db_nodes db" "db_rels dbx = db_rels db"
          by blast
        from fresh have notin: "py_norm cur \<notin> set v" by (simp add: in_visited_def)
        have one: "\<exists>new. qlog dbx = qlog db @ new \<and> distinct (expanded_ids new)
            \<and> set (expanded_ids new) \<inter> set v = {}
            \<and> db_nodes dbx = db_nodes db \<and> db_rels dbx = db_rels db"
          using e notin by (intro exI [of _ "[e]"]) simp
        show ?thesis
        proof (cases x)
          case (Inl err)
          with notfar hash fresh ex "2.prems" one show ?thesis by simp
        next
          case (Inr results)
          show ?thesis
          proof (cases "expand_records c hop (py_norm cur # v) results (q, n, r)")
            case (Inl err)
            with notfar hash fresh ex Inr "2.prems" one show ?thesis by simp
          next
            case inner: (Inr acc)
            obtain q1 n1 r1 where acc: "acc = (q1, n1, r1)" by (cases acc) auto
            show ?thesis
            proof (cases "int (length n1) \<ge> c")
              case True
              with notfar hash fresh ex Inr inner acc "2.prems" one show ?thesis by simp
            next
              case False
              with notfar hash fresh ex Inr inner acc "2.prems"
              have run: "traverse_loop mh c rf nf q1 (py_norm cur # v) n1 r1 dbx = (res, db')"
                by simp
              from "2.IH"(3) [OF notfar _ _ ex [symmetric] Inr inner acc [symmetric] refl False run]
                hash fresh
              obtain new where new: "qlog db' = qlog dbx @ new" "distinct (expanded_ids new)"
                "set (expanded_ids new) \<inter> set (py_norm cur # v) = {}"
                "db_nodes db' = db_nodes dbx" "db_rels db' = db_rels dbx"
                by auto
              have "qlog db' = qlog db @ (e # new)" using e new by simp
              moreover have "expanded_ids (e # new) = py_norm cur # expanded_ids new"
                using e(2) expanded_ids_append [of "[e]" new] by simp
              ultimately show ?thesis using new e notin
                by (intro exI [of _ "e # new"]) auto
            qed
          qed
        qed
      qed
    qed
  qed
qed


lemmas traversal_run = traverse_from_seeds_def expand_from_node_def outbound_rows_def inbound_rows_def
  List.map_filter_def node_of_def rel_ok_def node_ok_def cy_eq_def node_prop_def py_get_def
  new_neighbour_def py_getitem_def hashable_def in_visited_def logq_def filter_names_def
  triangle_def task_s_def task_x_def task_y_def dep_def Let_def

text \<open>
  \<open>traverse_from_seeds\<close> is a total function: it returns for every seed list, every
  hop and node bound, and every store. It leaves nodes and relationships of the store as
  they were, it expands no node id twice, and the node list it returns is never longer
  than the larger of \<open>max_nodes_per_hop\<close> and one.
\<close>

lemma traverse_from_seeds_total:
  "\<exists>res db'. traverse_from_seeds seeds max_hops cap rf nf db = (res, db')
     \<and> (\<exists>new. qlog db' = qlog db @ new \<and> distinct (expanded_ids new))
     \<and> db_nodes db' = db_nodes db \<and> db_rels db' = db_rels db
     \<and> (\<forall>ns rs. res = Inr (ns, rs) \<longrightarrow> int (length ns) \<le> max cap 1)"
proof -
  obtain res db' where run: "traverse_from_seeds seeds max_hops cap rf nf db = (res, db')"
    by (cases "traverse_from_seeds seeds max_hops cap rf nf db")
  then have loop: "traverse_loop max_hops cap rf nf (map (\<lambda>node_id. (node_id, 0)) seeds) [] [] [] db = (res, db')"
    by (simp add: traverse_from_seeds_def)
  from traverse_loop_log [OF loop]
  have log: "(\<exists>new. qlog db' = qlog db @ new \<and> distinct (expanded_ids new))
      \<and> db_nodes db' = db_nodes db \<and> db_rels db' = db_rels db"
    by blast
  have bound: "int (length ns) \<le> max cap 1" if "res = Inr (ns, rs)" for ns rs
    using traverse_loop_bound [of max_hops cap rf nf _ "[]" "[]" "[]" db ns rs db'] loop that
    by simp
  from run log bound show ?thesis by blast
qed

text \<open>
  C6. With \<open>max_nodes_per_hop = 0\<close> the returned node list is longer than the bound.
  On the graph \<open>s \<rightarrow> x\<close>, \<open>s \<rightarrow> y\<close>, \<open>x \<rightarrow> y\<close> the traversal from \<open>s\<close> returns, and
  it stops after the first record of the first expansion (one query, for \<open>s\<close>, is
  issued), but it has appended \<open>x\<close> by then: \<open>len(nodes) >= max_nodes_per_hop\<close> is
  tested after the append, never before. With \<open>max_nodes_per_hop = 1\<close> the same run
  returns the same single node, within the bound.
\<close>

theorem traverse_from_seeds_cap_zero_overshoots:
  "fst (traverse_from_seeds [VStr ''s''] 2 0 None None triangle) = Inr ([task_x], [dep 3 0 1])
   \<and> \<not> int (length [task_x]) \<le> 0
   \<and> expanded_ids (qlog (snd (traverse_from_seeds [VStr ''s''] 2 0 None None triangle))) = [VStr ''s'']
   \<and> fst (traverse_from_seeds [VStr ''s''] 2 1 None None triangle) = Inr ([task_x], [dep 3 0 1])"
  by (simp add: traversal_run expanded_ids_def)

section \<open>Traversal: the output node list\<close>

text \<open>
  C7 fails where it says that no node appears twice in the output. A neighbour is
  appended unless its id is in the visited set, and that set holds the expanded nodes
  only: from the seed \<open>s\<close> with \<open>s \<rightarrow> x\<close>, \<open>s \<rightarrow> y\<close>, \<open>x \<rightarrow> y\<close>, the node \<open>y\<close> is
  appended when \<open>s\<close> is expanded and again when \<open>x\<close> is, before \<open>y\<close> itself is
  visited.
\<close>

theorem traverse_from_seeds_repeats_node:
  "fst (traverse_from_seeds [VStr ''s''] 2 25 None None triangle)
     = Inr ([task_x, task_y, task_y],
            [dep 3 0 1, dep 4 0 2, dep 5 1 2, dep 3 0 1, dep 4 0 2, dep 5 1 2])
   \<and> \<not> distinct [task_x, task_y, task_y]"
  by (simp add: traversal_run)

section \<open>Merging: relationships move to the target\<close>

lemma node_prop_id [simp]: "node_prop n ''id'' = py_get (props n) ''id''"
  by (simp add: node_prop_def)

lemma wf_node_of:
  assumes "wf_graph db" "n \<in> set (db_nodes db)"
  shows "node_of db (nid n) = Some n"
proof -
  from assms have d: "distinct (map nid (db_nodes db))" by (simp add: wf_graph_def)
  have "find (\<lambda>m. nid m = nid n) xs = Some n" if "distinct (map nid xs)" "n \<in> set xs" for xs
    using that by (induction xs) (auto simp: image_iff)
  with d assms(2) show ?thesis by (simp add: node_of_def)
qed

lemma wf_node_of_rel:
  assumes "wf_graph db" "r \<in> set (db_rels db)"
  shows "\<exists>s t. s \<in> set (db_nodes db) \<and> t \<in> set (db_nodes db) \<and> nid s = src r \<and> nid t = tgt r
     \<and> node_of db (src r) = Some s \<and> node_of db (tgt r) = Some t"
proof -
  from assms have "src r \<in> nid ` set (db_nodes db)" "tgt r \<in> nid ` set (db_nodes db)"
    by (auto simp: wf_graph_def list_all_iff)
  then obtain s t where st: "s \<in> set (db_nodes db)" "t \<in> set (db_nodes db)" "nid s = src r" "nid t = tgt r"
    by auto
  with wf_node_of [OF assms(1)] have "node_of db (src r) = Some s" "node_of db (tgt r) = Some t"
    by metis+
  with st show ?thesis by blast
qed

lemma wf_same_id:
  assumes "wf_graph db" "n \<in> set (db_nodes db)" "m \<in> set (db_nodes db)"
  shows "cy_eq (py_get (props m) ''id'') (py_get (props n) ''id'') \<longleftrightarrow> m = n"
proof -
  from assms have d: "distinct (map (\<lambda>n. py_get (props n) ''id'') (db_nodes db))"
    and nn: "py_get (props n) ''id'' \<noteq> VNull"
    by (auto simp: wf_graph_def list_all_iff)
  from d assms(2,3) have "py_get (props m) ''id'' = py_get (props n) ''id'' \<Longrightarrow> m = n"
    by (meson distinct_map inj_onD)
  with nn show ?thesis by (auto simp: cy_eq_def)
qed

lemma wf_nodes_with_id:
  assumes "wf_graph db" "n \<in> set (db_nodes db)"
  shows "nodes_with_id db (py_get (props n) ''id'') = [n]"
proof -
  from assms have d: "distinct (db_nodes db)"
    by (auto simp: wf_graph_def distinct_map)
  have "filter (\<lambda>m. m = n) xs = [n]" if "distinct xs" "n \<in> set xs" for xs
    using that by (induction xs) (auto simp: filter_empty_conv)
  from this [OF d assms(2)] have "filter (\<lambda>m. m = n) (db_nodes db) = [n]" .
  moreover have "filter (\<lambda>m. cy_eq (node_prop m ''id'') (py_get (props n) ''id'')) (db_nodes db)
      = filter (\<lambda>m. m = n) (db_nodes db)"
    using wf_same_id [OF assms] by (intro filter_cong) auto
  ultimately show ?thesis by (simp add: nodes_with_id_def)
qed

lemma q_count_rels_frame [simp]:
  "db_nodes (snd (q_count_rels sl tlb t i j db)) = db_nodes db"
  "db_rels (snd (q_count_rels sl tlb t i j db)) = db_rels db"
  by (simp_all add: q_count_rels_def)

lemma wf_graph_logq [simp]: "wf_graph (logq q db) = wf_graph db"
  by (simp add: wf_graph_def)

lemma wf_graph_cong:
  "db_nodes db' = db_nodes db \<Longrightarrow> db_rels db' = db_rels db \<Longrightarrow> wf_graph db' = wf_graph db"
  by (simp add: wf_graph_def)

lemma q_count_rels_wf:
  assumes wf: "wf_graph db" and b: "b \<in> set (db_nodes db)" "labelled sl b"
    and x: "x \<in> set (db_nodes db)" "labelled tlb x"
  shows "(fst (q_count_rels sl tlb t (py_get (props b) ''id'') (py_get (props x) ''id'') db) > 0)
     \<longleftrightarrow> (nid b, t, nid x) \<in> edge_of ` set (db_rels db)"
proof -
  let ?P = "\<lambda>r. rtype r = t
            \<and> (case node_of db (src r) of
                 None \<Rightarrow> False
               | Some s \<Rightarrow> labelled sl s \<and> cy_eq (node_prop s ''id'') (py_get (props b) ''id''))
            \<and> (case node_of db (tgt r) of
                 None \<Rightarrow> False
               | Some u \<Rightarrow> labelled tlb u \<and> cy_eq (node_prop u ''id'') (py_get (props x) ''id''))"
  have iff: "?P r \<longleftrightarrow> edge_of r = (nid b, t, nid x)" if r: "r \<in> set (db_rels db)" for r
  proof -
    from wf_node_of_rel [OF wf r] obtain s u where
      su: "s \<in> set (db_nodes db)" "u \<in> set (db_nodes db)" "nid s = src r" "nid u = tgt r"
          "node_of db (src r) = Some s" "node_of db (tgt r) = Some u"
      by blast
    have sb: "cy_eq (py_get (props s) ''id'') (py_get (props b) ''id'') \<longleftrightarrow> s = b"
      using wf_same_id [OF wf b(1) su(1)] .
    have ux: "cy_eq (py_get (props u) ''id'') (py_get (props x) ''id'') \<longleftrightarrow> u = x"
      using wf_same_id [OF wf x(1) su(2)] .
    have nb: "src r = nid b \<longleftrightarrow> s = b"
      using su(3,5) wf_node_of [OF wf b(1)] by (metis option.inject)
    have nx: "tgt r = nid x \<longleftrightarrow> u = x"
      using su(4,6) wf_node_of [OF wf x(1)] by (metis option.inject)
    have "?P r \<longleftrightarrow> rtype r = t \<and> (labelled sl s \<and> s = b) \<and> (labelled tlb u \<and> u = x)"
      using su(5,6) sb ux by simp
    also have "\<dots> \<longleftrightarrow> rtype r = t \<and> s = b \<and> u = x"
      using b(2) x(2) by blast
    also have "\<dots> \<longleftrightarrow> rtype r = t \<and> src r = nid b \<and> tgt r = nid x"
      using nb nx by simp
    also have "\<dots> \<longleftrightarrow> edge_of r = (nid b, t, nid x)"
      by (auto simp: edge_of_def)
    finally show ?thesis .
  qed
  have "(length (filter ?P (db_rels db)) > 0) \<longleftrightarrow> (\<exists>r \<in> set (db_rels db). ?P r)"
    unfolding length_greater_0_conv filter_empty_conv by blast
  also have "\<dots> \<longleftrightarrow> (\<exists>r \<in> set (db_rels db). edge_of r = (nid b, t, nid x))"
    using iff by blast
  also have "\<dots> \<longleftrightarrow> (nid b, t, nid x) \<in> edge_of ` set (db_rels db)"
    by (metis (no_types, lifting) image_iff)
  finally show ?thesis by (simp add: q_count_rels_def)
qed

lemma q_create_rel_wf:
  assumes wf: "wf_graph db" and b: "b \<in> set (db_nodes db)" "labelled sl b"
    and x: "x \<in> set (db_nodes db)" "labelled tlb x"
  shows "\<exists>r. db_rels (q_create_rel sl tlb t (py_get (props b) ''id'') (py_get (props x) ''id'') ps db)
              = db_rels db @ [r] \<and> edge_of r = (nid b, t, nid x)"
    and "db_nodes (q_create_rel sl tlb t (py_get (props b) ''id'') (py_get (props x) ''id'') ps db) = db_nodes db"
    and "wf_graph (q_create_rel sl tlb t (py_get (props b) ''id'') (py_get (props x) ''id'') ps db)"
proof -
  let ?db = "q_create_rel sl tlb t (py_get (props b) ''id'') (py_get (props x) ''id'') ps db"
  have pairs: "List.product (map nid (filter (labelled sl) (nodes_with_id db (py_get (props b) ''id''))))
                 (map nid (filter (labelled tlb) (nodes_with_id db (py_get (props x) ''id''))))
               = [(nid b, nid x)]"
    using wf_nodes_with_id [OF wf b(1)] wf_nodes_with_id [OF wf x(1)] b(2) x(2) by simp
  show r: "\<exists>r. db_rels ?db = db_rels db @ [r] \<and> edge_of r = (nid b, t, nid x)"
    by (simp add: q_create_rel_def pairs edge_of_def Let_def)
  show n: "db_nodes ?db = db_nodes db"
    by (simp add: q_create_rel_def pairs Let_def)
  from r obtain r' where r': "db_rels ?db = db_rels db @ [r']" "edge_of r' = (nid b, t, nid x)"
    by blast
  from wf b(1) x(1) r' n show "wf_graph ?db"
    by (auto simp: wf_graph_def edge_of_def list_all_iff)
qed

lemma wf_getitem_id:
  assumes "wf_graph db" "x \<in> set (db_nodes db)"
  shows "py_getitem (props x) ''id'' = Inr (py_get (props x) ''id'')"
proof -
  from assms have "py_get (props x) ''id'' \<noteq> VNull"
    by (auto simp: wf_graph_def list_all_iff)
  then show ?thesis
    by (auto simp: py_get_def py_getitem_def split: option.splits)
qed

lemma transfer_outgoing_wf:
  assumes "wf_graph db" "b \<in> set (db_nodes db)" "has_label ty b"
    and "\<forall>(r, x) \<in> set rows. x \<in> set (db_nodes db)"
  shows "\<exists>db'. transfer_outgoing ty (py_get (props b) ''id'') rows db = (Inr (), db')
      \<and> db_nodes db' = db_nodes db \<and> wf_graph db'
      \<and> (\<exists>new. db_rels db' = db_rels db @ new \<and> distinct (map edge_of new)
            \<and> set (map edge_of new) \<inter> edge_of ` set (db_rels db) = {})
      \<and> (\<forall>(r, x) \<in> set rows. (nid b, rtype r, nid x) \<in> edge_of ` set (db_rels db'))"
  using assms
proof (induction rows arbitrary: db)
  case Nil
  then show ?case by simp
next
  case (Cons row rows)
  obtain r x where row: "row = (r, x)" by (cases row)
  with Cons.prems have x: "x \<in> set (db_nodes db)" by simp
  have lb: "labelled (Some ty) b" "labelled None x"
    using Cons.prems(3) by (simp_all add: labelled_def)
  let ?bid = "py_get (props b) ''id''"
  let ?xid = "py_get (props x) ''id''"
  let ?cnt = "q_count_rels (Some ty) None (rtype r) ?bid ?xid db"
  let ?db1 = "snd ?cnt"
  have wf1: "wf_graph ?db1" "db_nodes ?db1 = db_nodes db" "db_rels ?db1 = db_rels db"
    using Cons.prems(1) by (simp_all add: q_count_rels_def)
  have present: "fst ?cnt > 0 \<longleftrightarrow> (nid b, rtype r, nid x) \<in> edge_of ` set (db_rels db)"
    using q_count_rels_wf [OF Cons.prems(1,2) lb(1) x lb(2)] .
  have getid: "py_getitem (props x) ''id'' = Inr ?xid"
    using wf_getitem_id [OF Cons.prems(1) x] .
  show ?case
  proof (cases "fst ?cnt > 0")
    case True
    have step: "transfer_outgoing ty ?bid (row # rows) db = transfer_outgoing ty ?bid rows ?db1"
      using True getid row by (cases ?cnt) auto
    from Cons.IH [of ?db1] wf1 Cons.prems
    obtain db' where ih: "transfer_outgoing ty ?bid rows ?db1 = (Inr (), db')"
      "db_nodes db' = db_nodes db" "wf_graph db'"
      "\<exists>new. db_rels db' = db_rels db @ new \<and> distinct (map edge_of new)
            \<and> set (map edge_of new) \<inter> edge_of ` set (db_rels db) = {}"
      "\<forall>(r, x) \<in> set rows. (nid b, rtype r, nid x) \<in> edge_of ` set (db_rels db')"
      by auto
    from ih(4) True present have "(nid b, rtype r, nid x) \<in> edge_of ` set (db_rels db')"
      by auto
    with ih step row show ?thesis by auto
  next
    case False
    let ?db2 = "q_create_rel (Some ty) None (rtype r) ?bid ?xid (rel_props_of r) ?db1"
    have b1: "b \<in> set (db_nodes ?db1)" "x \<in> set (db_nodes ?db1)"
      using Cons.prems(2) x wf1 by simp_all
    from q_create_rel_wf [OF wf1(1) b1(1) lb(1) b1(2) lb(2), of "rtype r" "rel_props_of r"] wf1
    obtain r' where r': "db_rels ?db2 = db_rels db @ [r']" "edge_of r' = (nid b, rtype r, nid x)"
      and n2: "db_nodes ?db2 = db_nodes db" and wf2: "wf_graph ?db2"
      by auto
    have step: "transfer_outgoing ty ?bid (row # rows) db = transfer_outgoing ty ?bid rows ?db2"
      using False getid row by (cases ?cnt) auto
    from Cons.IH [of ?db2] wf2 n2 Cons.prems
    obtain db' where ih: "transfer_outgoing ty ?bid rows ?db2 = (Inr (), db')"
      "db_nodes db' = db_nodes db" "wf_graph db'"
      and "\<exists>new. db_rels db' = db_rels ?db2 @ new \<and> distinct (map edge_of new)
            \<and> set (map edge_of new) \<inter> edge_of ` set (db_rels ?db2) = {}"
      and all: "\<forall>(r, x) \<in> set rows. (nid b, rtype r, nid x) \<in> edge_of ` set (db_rels db')"
      by auto
    then obtain new where new: "db_rels db' = db_rels ?db2 @ new" "distinct (map edge_of new)"
      "set (map edge_of new) \<inter> edge_of ` set (db_rels ?db2) = {}"
      by blast
    from False present have absent: "edge_of r' \<notin> edge_of ` set (db_rels db)"
      using r'(2) by simp
    have "db_rels db' = db_rels db @ (r' # new)" using new(1) r'(1) by simp
    moreover have "distinct (map edge_of (r' # new))"
      using new(2,3) r'(1) by auto
    moreover have "set (map edge_of (r' # new)) \<inter> edge_of ` set (db_rels db) = {}"
      using new(3) r'(1) absent by auto
    moreover have "(nid b, rtype r, nid x) \<in> edge_of ` set (db_rels db')"
      using new(1) r' by (auto simp: image_iff)
    ultimately show ?thesis using ih step row all
      by (intro exI [of _ db']) (auto intro!: exI [of _ "r' # new"])
  qed
qed

lemma transfer_incoming_wf:
  assumes "wf_graph db" "b \<in> set (db_nodes db)" "has_label ty b"
    and "\<forall>(r, x) \<in> set rows. x \<in> set (db_nodes db)"
  shows "\<exists>db'. transfer_incoming ty (py_get (props b) ''id'') rows db = (Inr (), db')
      \<and> db_nodes db' = db_nodes db \<and> wf_graph db'
      \<and> (\<exists>new. db_rels db' = db_rels db @ new \<and> distinct (map edge_of new)
            \<and> set (map edge_of new) \<inter> edge_of ` set (db_rels db) = {})
      \<and> (\<forall>(r, x) \<in> set rows. (nid x, rtype r, nid b) \<in> edge_of ` set (db_rels db'))"
  using assms
proof (induction rows arbitrary: db)
  case Nil
  then show ?case by simp
next
  case (Cons row rows)
  obtain r x where row: "row = (r, x)" by (cases row)
  with Cons.prems have x: "x \<in> set (db_nodes db)" by simp
  have lb: "labelled (Some ty) b" "labelled None x"
    using Cons.prems(3) by (simp_all add: labelled_def)
  let ?bid = "py_get (props b) ''id''"
  let ?xid = "py_get (props x) ''id''"
  let ?cnt = "q_count_rels None (Some ty) (rtype r) ?xid ?bid db"
  let ?db1 = "snd ?cnt"
  have wf1: "wf_graph ?db1" "db_nodes ?db1 = db_nodes db" "db_rels ?db1 = db_rels db"
    using Cons.prems(1) by (simp_all add: q_count_rels_def)
  have present: "fst ?cnt > 0 \<longleftrightarrow> (nid x, rtype r, nid b) \<in> edge_of ` set (db_rels db)"
    using q_count_rels_wf [OF Cons.prems(1) x lb(2) Cons.prems(2) lb(1)] .
  have getid: "py_getitem (props x) ''id'' = Inr ?xid"
    using wf_getitem_id [OF Cons.prems(1) x] .
  show ?case
  proof (cases "fst ?cnt > 0")
    case True
    have step: "transfer_incoming ty ?bid (row # rows) db = transfer_incoming ty ?bid rows ?db1"
      using True getid row by (cases ?cnt) auto
    from Cons.IH [of ?db1] wf1 Cons.prems
    obtain db' where ih: "transfer_incoming ty ?bid rows ?db1 = (Inr (), db')"
      "db_nodes db' = db_nodes db" "wf_graph db'"
      "\<exists>new. db_rels db' = db_rels db @ new \<and> distinct (map edge_of new)
            \<and> set (map edge_of new) \<inter> edge_of ` set (db_rels db) = {}"
      "\<forall>(r, x) \<in> set rows. (nid x, rtype r, nid b) \<in> edge_of ` set (db_rels db')"
      by auto
    from ih(4) True present have "(nid x, rtype r, nid b) \<in> edge_of ` set (db_rels db')"
      by auto
    with ih step row show ?thesis by auto
  next
    case False
    let ?db2 = "q_create_rel None (Some ty) (rtype r) ?xid ?bid (rel_props_of r) ?db1"
    have b1: "b \<in> set (db_nodes ?db1)" "x \<in> set (db_nodes ?db1)"
      using Cons.prems(2) x wf1 by simp_all
    from q_create_rel_wf [OF wf1(1) b1(2) lb(2) b1(1) lb(1), of "rtype r" "rel_props_of r"] wf1
    obtain r' where r': "db_rels ?db2 = db_rels db @ [r']" "edge_of r' = (nid x, rtype r, nid b)"
      and n2: "db_nodes ?db2 = db_nodes db" and wf2: "wf_graph ?db2"
      by auto
    have step: "transfer_incoming ty ?bid (row # rows) db = transfer_incoming ty ?bid rows ?db2"
      using False getid row by (cases ?cnt) auto
    from Cons.IH [of ?db2] wf2 n2 Cons.prems
    obtain db' where ih: "transfer_incoming ty ?bid rows ?db2 = (Inr (), db')"
      "db_nodes db' = db_nodes db" "wf_graph db'"
      and "\<exists>new. db_rels db' = db_rels ?db2 @ new \<and> distinct (map edge_of new)
            \<and> set (map edge_of new) \<inter> edge_of ` set (db_rels ?db2) = {}"
      and all: "\<forall>(r, x) \<in> set rows. (nid x, rtype r, nid b) \<in> edge_of ` set (db_rels db')"
      by auto
    then obtain new where new: "db_rels db' = db_rels ?db2 @ new" "distinct (map edge_of new)"
      "set (map edge_of new) \<inter> edge_of ` set (db_rels ?db2) = {}"
      by blast
    from False present have absent: "edge_of r' \<notin> edge_of ` set (db_rels db)"
      using r'(2) by simp
    have "db_rels db' = db_rels db @ (r' # new)" using new(1) r'(1) by simp
    moreover have "distinct (map edge_of (r' # new))"
      using new(2,3) r'(1) by auto
    moreover have "set (map edge_of (r' # new)) \<inter> edge_of ` set (db_rels db) = {}"
      using new(3) r'(1) absent by auto
    moreover have "(nid x, rtype r, nid b) \<in> edge_of ` set (db_rels db')"
      using new(1) r' by (auto simp: image_iff)
    ultimately show ?thesis using ih step row all
      by (intro exI [of _ db']) (auto intro!: exI [of _ "r' # new"])
  qed
qed

lemma set_map_filter:
  "set (List.map_filter g xs) = {y. \<exists>x. x \<in> set xs \<and> g x = Some y}"
  by (induction xs) (auto split: option.splits)

lemma q_outgoing_rows:
  assumes wf: "wf_graph db" and a: "a \<in> set (db_nodes db)" "has_label ty a"
  shows "(\<forall>(r, x) \<in> set (fst (q_outgoing ty (py_get (props a) ''id'') db)). x \<in> set (db_nodes db))"
    and "\<forall>r \<in> set (db_rels db). src r = nid a \<longrightarrow>
           (\<exists>x. (r, x) \<in> set (fst (q_outgoing ty (py_get (props a) ''id'') db)) \<and> nid x = tgt r)"
proof -
  let ?f = "\<lambda>r. case node_of db (src r) of
                None \<Rightarrow> None
              | Some s \<Rightarrow>
                  (case node_of db (tgt r) of
                     None \<Rightarrow> None
                   | Some t \<Rightarrow>
                       if has_label ty s \<and> cy_eq (node_prop s ''id'') (py_get (props a) ''id'')
                       then Some (r, t) else None)"
  have rows: "set (fst (q_outgoing ty (py_get (props a) ''id'') db))
      = {y. \<exists>r. r \<in> set (db_rels db) \<and> ?f r = Some y}"
    by (simp add: q_outgoing_def set_map_filter)
  have f: "?f r = (if src r = nid a then Some (r, t) else None)"
    if r: "r \<in> set (db_rels db)" and t: "node_of db (tgt r) = Some t" for r t
  proof -
    from wf_node_of_rel [OF wf r] obtain s where
      s: "s \<in> set (db_nodes db)" "nid s = src r" "node_of db (src r) = Some s"
      by blast
    have "cy_eq (py_get (props s) ''id'') (py_get (props a) ''id'') \<longleftrightarrow> s = a"
      using wf_same_id [OF wf a(1) s(1)] .
    moreover have "src r = nid a \<longleftrightarrow> s = a"
      using s(2,3) wf_node_of [OF wf a(1)] by (metis option.inject)
    ultimately show ?thesis using s(3) t a(2) by auto
  qed
  show "\<forall>(r, x) \<in> set (fst (q_outgoing ty (py_get (props a) ''id'') db)). x \<in> set (db_nodes db)"
  proof (clarify)
    fix r x assume "(r, x) \<in> set (fst (q_outgoing ty (py_get (props a) ''id'') db))"
    with rows obtain r0 where r0: "r0 \<in> set (db_rels db)" "?f r0 = Some (r, x)" by auto
    from wf_node_of_rel [OF wf r0(1)] obtain t where
      t: "t \<in> set (db_nodes db)" "node_of db (tgt r0) = Some t" by blast
    from f [OF r0(1) t(2)] r0(2) have "x = t" by (auto split: if_splits)
    with t show "x \<in> set (db_nodes db)" by simp
  qed
  show "\<forall>r \<in> set (db_rels db). src r = nid a \<longrightarrow>
           (\<exists>x. (r, x) \<in> set (fst (q_outgoing ty (py_get (props a) ''id'') db)) \<and> nid x = tgt r)"
  proof (intro ballI impI)
    fix r assume r: "r \<in> set (db_rels db)" and "src r = nid a"
    from wf_node_of_rel [OF wf r] obtain t where
      t: "nid t = tgt r" "node_of db (tgt r) = Some t" by blast
    from f [OF r t(2)] \<open>src r = nid a\<close> have "?f r = Some (r, t)" by simp
    with rows r have "(r, t) \<in> set (fst (q_outgoing ty (py_get (props a) ''id'') db))" by blast
    with t show "\<exists>x. (r, x) \<in> set (fst (q_outgoing ty (py_get (props a) ''id'') db)) \<and> nid x = tgt r"
      by blast
  qed
qed

lemma q_incoming_rows:
  assumes wf: "wf_graph db" and a: "a \<in> set (db_nodes db)" "has_label ty a"
  shows "(\<forall>(r, x) \<in> set (fst (q_incoming ty (py_get (props a) ''id'') db)). x \<in> set (db_nodes db))"
    and "\<forall>r \<in> set (db_rels db). tgt r = nid a \<longrightarrow>
           (\<exists>x. (r, x) \<in> set (fst (q_incoming ty (py_get (props a) ''id'') db)) \<and> nid x = src r)"
proof -
  let ?f = "\<lambda>r. case node_of db (src r) of
                None \<Rightarrow> None
              | Some s \<Rightarrow>
                  (case node_of db (tgt r) of
                     None \<Rightarrow> None
                   | Some t \<Rightarrow>
                       if has_label ty t \<and> cy_eq (node_prop t ''id'') (py_get (props a) ''id'')
                       then Some (r, s) else None)"
  have rows: "set (fst (q_incoming ty (py_get (props a) ''id'') db))
      = {y. \<exists>r. r \<in> set (db_rels db) \<and> ?f r = Some y}"
    by (simp add: q_incoming_def set_map_filter)
  have f: "?f r = (if tgt r = nid a then Some (r, s) else None)"
    if r: "r \<in> set (db_rels db)" and s: "node_of db (src r) = Some s" for r s
  proof -
    from wf_node_of_rel [OF wf r] obtain t where
      t: "t \<in> set (db_nodes db)" "nid t = tgt r" "node_of db (tgt r) = Some t"
      by blast
    have "cy_eq (py_get (props t) ''id'') (py_get (props a) ''id'') \<longleftrightarrow> t = a"
      using wf_same_id [OF wf a(1) t(1)] .
    moreover have "tgt r = nid a \<longleftrightarrow> t = a"
      using t(2,3) wf_node_of [OF wf a(1)] by (metis option.inject)
    ultimately show ?thesis using t(3) s a(2) by auto
  qed
  show "\<forall>(r, x) \<in> set (fst (q_incoming ty (py_get (props a) ''id'') db)). x \<in> set (db_nodes db)"
  proof (clarify)
    fix r x assume "(r, x) \<in> set (fst (q_incoming ty (py_get (props a) ''id'') db))"
    with rows obtain r0 where r0: "r0 \<in> set (db_rels db)" "?f r0 = Some (r, x)" by auto
    from wf_node_of_rel [OF wf r0(1)] obtain s where
      s: "s \<in> set (db_nodes db)" "node_of db (src r0) = Some s" by blast
    from f [OF r0(1) s(2)] r0(2) have "x = s" by (auto split: if_splits)
    with s show "x \<in> set (db_nodes db)" by simp
  qed
  show "\<forall>r \<in> set (db_rels db). tgt r = nid a \<longrightarrow>
           (\<exists>x. (r, x) \<in> set (fst (q_incoming ty (py_get (props a) ''id'') db)) \<and> nid x = src r)"
  proof (intro ballI impI)
    fix r assume r: "r \<in> set (db_rels db)" and "tgt r = nid a"
    from wf_node_of_rel [OF wf r] obtain s where
      s: "nid s = src r" "node_of db (src r) = Some s" by blast
    from f [OF r s(2)] \<open>tgt r = nid a\<close> have "?f r = Some (r, s)" by simp
    with rows r have "(r, s) \<in> set (fst (q_incoming ty (py_get (props a) ''id'') db))" by blast
    with s show "\<exists>x. (r, x) \<in> set (fst (q_incoming ty (py_get (props a) ''id'') db)) \<and> nid x = src r"
      by blast
  qed
qed

lemma node_of_logq [simp]: "node_of (logq q db) = node_of db"
  by (rule ext) (simp add: node_of_def)

lemma transfer_relationships_wf:
  assumes wf: "wf_graph db" and a: "a \<in> set (db_nodes db)" "has_label ty a"
    and b: "b \<in> set (db_nodes db)" "has_label ty b"
  shows "\<exists>db'. transfer_relationships (py_get (props a) ''id'') (py_get (props b) ''id'') ty db = (Inr (), db')
      \<and> db_nodes db' = db_nodes db \<and> wf_graph db'
      \<and> (\<exists>new. db_rels db' = db_rels db @ new \<and> distinct (map edge_of new)
            \<and> set (map edge_of new) \<inter> edge_of ` set (db_rels db) = {})
      \<and> (\<forall>r \<in> set (db_rels db).
            (src r = nid a \<longrightarrow> (nid b, rtype r, tgt r) \<in> edge_of ` set (db_rels db'))
          \<and> (tgt r = nid a \<longrightarrow> (src r, rtype r, nid b) \<in> edge_of ` set (db_rels db')))"
proof -
  let ?aid = "py_get (props a) ''id''"
  let ?bid = "py_get (props b) ''id''"
  let ?out = "fst (q_outgoing ty ?aid db)"
  let ?db1 = "snd (q_outgoing ty ?aid db)"
  let ?inc = "fst (q_incoming ty ?aid ?db1)"
  let ?db2 = "snd (q_incoming ty ?aid ?db1)"
  have fr1: "db_nodes ?db1 = db_nodes db" "db_rels ?db1 = db_rels db"
    by (simp_all add: q_outgoing_def)
  have fr2: "db_nodes ?db2 = db_nodes db" "db_rels ?db2 = db_rels db"
    by (simp_all add: q_incoming_def q_outgoing_def)
  have wf1: "wf_graph ?db1" using wf fr1 wf_graph_cong by blast
  have wf2: "wf_graph ?db2" using wf fr2 wf_graph_cong by blast
  have inc_eq: "?inc = fst (q_incoming ty ?aid db)"
    by (simp add: q_incoming_def q_outgoing_def cong: option.case_cong)
  note out_rows = q_outgoing_rows [OF wf a]
  note inc_rows = q_incoming_rows [OF wf a]
  have out_nodes: "\<forall>(r, x) \<in> set ?out. x \<in> set (db_nodes ?db2)"
    using out_rows(1) fr2 by simp
  from transfer_outgoing_wf [OF wf2 _ b(2) out_nodes] b(1) fr2
  obtain db3 where o: "transfer_outgoing ty ?bid ?out ?db2 = (Inr (), db3)"
    "db_nodes db3 = db_nodes db" "wf_graph db3"
    and "\<exists>new. db_rels db3 = db_rels db @ new \<and> distinct (map edge_of new)
            \<and> set (map edge_of new) \<inter> edge_of ` set (db_rels db) = {}"
    and oall: "\<forall>(r, x) \<in> set ?out. (nid b, rtype r, nid x) \<in> edge_of ` set (db_rels db3)"
    by auto
  then obtain new1 where new1: "db_rels db3 = db_rels db @ new1" "distinct (map edge_of new1)"
    "set (map edge_of new1) \<inter> edge_of ` set (db_rels db) = {}"
    by blast
  have inc_nodes: "\<forall>(r, x) \<in> set ?inc. x \<in> set (db_nodes db3)"
    using inc_rows(1) inc_eq o(2) by simp
  from transfer_incoming_wf [OF o(3) _ b(2) inc_nodes] b(1) o(2)
  obtain db4 where i: "transfer_incoming ty ?bid ?inc db3 = (Inr (), db4)"
    "db_nodes db4 = db_nodes db" "wf_graph db4"
    and "\<exists>new. db_rels db4 = db_rels db3 @ new \<and> distinct (map edge_of new)
            \<and> set (map edge_of new) \<inter> edge_of ` set (db_rels db3) = {}"
    and iall: "\<forall>(r, x) \<in> set ?inc. (nid x, rtype r, nid b) \<in> edge_of ` set (db_rels db4)"
    by auto
  then obtain new2 where new2: "db_rels db4 = db_rels db3 @ new2" "distinct (map edge_of new2)"
    "set (map edge_of new2) \<inter> edge_of ` set (db_rels db3) = {}"
    by blast
  have run: "transfer_relationships ?aid ?bid ty db = (Inr (), db4)"
    using o(1) i(1) by (auto simp: transfer_relationships_def split: prod.splits)
  have rels: "db_rels db4 = db_rels db @ (new1 @ new2)"
    using new1(1) new2(1) by simp
  have dist: "distinct (map edge_of (new1 @ new2))"
    using new1(1,2) new2(2,3) by auto
  have disj: "set (map edge_of (new1 @ new2)) \<inter> edge_of ` set (db_rels db) = {}"
    using new1(1,3) new2(3) by auto
  have cover: "(src r = nid a \<longrightarrow> (nid b, rtype r, tgt r) \<in> edge_of ` set (db_rels db4))
          \<and> (tgt r = nid a \<longrightarrow> (src r, rtype r, nid b) \<in> edge_of ` set (db_rels db4))"
    if r: "r \<in> set (db_rels db)" for r
  proof (intro conjI impI)
    assume "src r = nid a"
    with out_rows(2) r obtain x where "(r, x) \<in> set ?out" "nid x = tgt r" by blast
    with oall have "(nid b, rtype r, tgt r) \<in> edge_of ` set (db_rels db3)" by auto
    with new2(1) show "(nid b, rtype r, tgt r) \<in> edge_of ` set (db_rels db4)" by auto
  next
    assume "tgt r = nid a"
    with inc_rows(2) r obtain x where "(r, x) \<in> set (fst (q_incoming ty ?aid db))" "nid x = src r"
      by blast
    with iall inc_eq show "(src r, rtype r, nid b) \<in> edge_of ` set (db_rels db4)" by auto
  qed
  from run i(2,3) rels dist disj cover show ?thesis by blast
qed

lemma set_prop_other: "fst kv \<noteq> k \<Longrightarrow> map_of (set_prop ps kv) k = map_of ps k"
  by (simp add: set_prop_def update_conv' delete_conv')

lemma set_props_other: "k \<notin> fst ` set kvs \<Longrightarrow> map_of (set_props ps kvs) k = map_of ps k"
  unfolding set_props_def
  by (induction kvs arbitrary: ps) (auto simp: set_prop_other)

lemma set_props_id: "''id'' \<notin> fst ` set kvs \<Longrightarrow> py_get (set_props ps kvs) ''id'' = py_get ps ''id''"
  by (simp add: py_get_def set_props_other)

lemma merge_source_keys:
  "merge_source eng st src_items merged = Inr out \<Longrightarrow> ''id'' \<notin> fst ` set merged
   \<Longrightarrow> ''id'' \<notin> fst ` set out"
proof (induction eng st src_items merged rule: merge_source.induct)
  case (1 eng st merged)
  then show ?case by simp
next
  case (2 eng st key v rest merged)
  show ?case
  proof (cases "skip_key key")
    case True
    with 2 show ?thesis by simp
  next
    case False
    then have key: "key \<noteq> ''id''" by (simp add: skip_key_def)
    have upd: "''id'' \<notin> fst ` set (AList.update key w merged)" for w
      using key "2.prems"(2) by (simp add: dom_update)
    show ?thesis
    proof (cases "map_of merged key")
      case None
      with False "2.prems" "2.IH"(2) upd show ?thesis by simp
    next
      case (Some cur)
      with False "2.prems" obtain w where w: "merge_conflict eng st key v cur = Inr w"
        "merge_source eng st rest (AList.update key w merged) = Inr out"
        by (auto split: sum.splits)
      with False Some "2.IH"(3) upd show ?thesis by simp
    qed
  qed
qed

lemma merge_properties_keys:
  "merge_properties eng s t st = Inr merged \<Longrightarrow> ''id'' \<notin> fst ` set merged"
proof -
  assume m: "merge_properties eng s t st = Inr merged"
  then obtain out c where out: "merge_source eng st s (filter (\<lambda>kv. \<not> skip_key (fst kv)) t) = Inr out"
    and merged: "merged = AList.update ''merged_count'' c out"
    by (auto simp: merge_properties_def split: sum.splits)
  have "''id'' \<notin> fst ` set (filter (\<lambda>kv. \<not> skip_key (fst kv)) t)"
    by (auto simp: skip_key_def)
  with out have "''id'' \<notin> fst ` set out" by (rule merge_source_keys)
  with merged show ?thesis by (simp add: dom_update)
qed

lemma wf_graph_map_nodes:
  assumes wf: "wf_graph db"
    and f: "\<And>n. nid (f n) = nid n" "\<And>n. py_get (props (f n)) ''id'' = py_get (props n) ''id''"
    and eq: "db_nodes db' = map f (db_nodes db)" "db_rels db' = db_rels db"
  shows "wf_graph db'"
proof -
  have a: "nid \<circ> f = nid" "(\<lambda>n. py_get (props n) ''id'') \<circ> f = (\<lambda>n. py_get (props n) ''id'')"
    using f by auto
  have "nid ` set (map f (db_nodes db)) = nid ` set (db_nodes db)"
    using f(1) by (auto simp: image_iff)
  then show ?thesis
    using wf eq f(2) a by (simp add: wf_graph_def list_all_iff)
qed

lemma merge_entities_steps:
  assumes "merge_entities eng source_id target_id ty strategy merged_at (db, vs) = (Inr m, (db', vs'))"
  shows "\<exists>a ss b ts merged db4.
      fst (q_by_id ty source_id db) = a # ss
    \<and> fst (q_by_id ty target_id db) = b # ts
    \<and> merge_properties eng (props a) (props b) strategy = Inr merged
    \<and> transfer_relationships source_id target_id ty
          (snd (q_set_properties ty target_id merged
                 (snd (q_by_id ty target_id (snd (q_by_id ty source_id db)))))) = (Inr (), db4)
    \<and> db_rels db' = db_rels db4
    \<and> db_nodes db' = db_nodes (q_mark_merged ty source_id target_id merged_at db4)"
proof -
  have same: "fst (q_by_id ty target_id (snd (q_by_id ty source_id db))) = fst (q_by_id ty target_id db)"
    by (simp add: q_by_id_def nodes_with_id_def)
  show ?thesis
    using assms unfolding merge_entities_def same [symmetric]
    by (auto simp: q_by_id_def q_mark_merged_def Let_def split: prod.splits list.splits sum.splits)
qed

lemma q_by_id_first:
  assumes "fst (q_by_id ty i db) = a # ss"
  shows "a \<in> set (db_nodes db) \<and> has_label ty a \<and> py_get (props a) ''id'' = i \<and> i \<noteq> VNull"
proof -
  from assms have "a \<in> set (filter (has_label ty) (nodes_with_id db i))"
    by (simp add: q_by_id_def)
  then show ?thesis by (auto simp: nodes_with_id_def cy_eq_def)
qed



text \<open>
  On a store in which every node has an id of its own, when \<open>merge_entities\<close>
  completes, the source and the target are nodes of the type; every relationship that
  left the source now also leaves the target, with the same type and the same other
  end, and every relationship that entered the source now also enters the target; no
  relationship of the store is removed, and no relationship is created with a source,
  type and target that an existing or an earlier created relationship has.
\<close>

lemma merge_entities_unique_ids:
  "wf_graph db
   \<and> merge_entities eng source_id target_id ty strategy merged_at (db, vs) = (Inr m, (db', vs'))
   \<longrightarrow> (\<exists>a b. a \<in> set (db_nodes db) \<and> has_label ty a \<and> py_get (props a) ''id'' = source_id
         \<and> b \<in> set (db_nodes db) \<and> has_label ty b \<and> py_get (props b) ''id'' = target_id
         \<and> (\<exists>new. db_rels db' = db_rels db @ new \<and> distinct (map edge_of new)
               \<and> set (map edge_of new) \<inter> edge_of ` set (db_rels db) = {})
         \<and> (\<forall>r \<in> set (db_rels db).
               (src r = nid a \<longrightarrow> (nid b, rtype r, tgt r) \<in> edge_of ` set (db_rels db'))
             \<and> (tgt r = nid a \<longrightarrow> (src r, rtype r, nid b) \<in> edge_of ` set (db_rels db'))))"
proof
  assume asm: "wf_graph db
   \<and> merge_entities eng source_id target_id ty strategy merged_at (db, vs) = (Inr m, (db', vs'))"
  then have wf: "wf_graph db" by simp
  let ?db2 = "snd (q_by_id ty target_id (snd (q_by_id ty source_id db)))"
  from merge_entities_steps [of eng source_id target_id ty strategy merged_at db vs m db' vs'] asm
  obtain a ss b ts merged db4 where
    a: "fst (q_by_id ty source_id db) = a # ss" and b: "fst (q_by_id ty target_id db) = b # ts"
    and merged: "merge_properties eng (props a) (props b) strategy = Inr merged"
    and tr: "transfer_relationships source_id target_id ty
          (snd (q_set_properties ty target_id merged ?db2)) = (Inr (), db4)"
    and rels: "db_rels db' = db_rels db4"
    by blast
  from q_by_id_first [OF a] have a': "a \<in> set (db_nodes db)" "has_label ty a"
    "py_get (props a) ''id'' = source_id" by simp_all
  from q_by_id_first [OF b] have b': "b \<in> set (db_nodes db)" "has_label ty b"
    "py_get (props b) ''id'' = target_id" by simp_all
  define f where "f = (\<lambda>e. if has_label ty e \<and> cy_eq (node_prop e ''id'') target_id
                 then e\<lparr>props := set_props (props e) merged\<rparr> else e)"
  define db3 where "db3 = snd (q_set_properties ty target_id merged ?db2)"
  have noid: "''id'' \<notin> fst ` set merged"
    using merged by (rule merge_properties_keys)
  have f: "nid (f n) = nid n" "py_get (props (f n)) ''id'' = py_get (props n) ''id''"
    "has_label ty (f n) = has_label ty n" for n
    using noid by (simp_all add: f_def set_props_id has_label_def)
  have n3: "db_nodes db3 = map f (db_nodes db)" and r3: "db_rels db3 = db_rels db"
    by (simp_all add: db3_def f_def q_set_properties_def q_by_id_def Let_def)
  have wf3: "wf_graph db3"
    using wf f(1,2) n3 r3 by (rule wf_graph_map_nodes)
  have a3: "f a \<in> set (db_nodes db3)" "has_label ty (f a)"
    using a'(1,2) by (simp_all add: n3 f(3))
  have b3: "f b \<in> set (db_nodes db3)" "has_label ty (f b)"
    using b'(1,2) by (simp_all add: n3 f(3))
  have ids: "py_get (props (f a)) ''id'' = source_id" "py_get (props (f b)) ''id'' = target_id"
    using f(2) a'(3) b'(3) by simp_all
  from transfer_relationships_wf [OF wf3 a3 b3]
  obtain dbx where x: "transfer_relationships source_id target_id ty db3 = (Inr (), dbx)"
    "\<exists>new. db_rels dbx = db_rels db3 @ new \<and> distinct (map edge_of new)
            \<and> set (map edge_of new) \<inter> edge_of ` set (db_rels db3) = {}"
    "\<forall>r \<in> set (db_rels db3).
            (src r = nid (f a) \<longrightarrow> (nid (f b), rtype r, tgt r) \<in> edge_of ` set (db_rels dbx))
          \<and> (tgt r = nid (f a) \<longrightarrow> (src r, rtype r, nid (f b)) \<in> edge_of ` set (db_rels dbx))"
    unfolding ids by blast
  from x(1) tr have dbx: "dbx = db4" by (simp add: db3_def)
  have "(\<exists>new. db_rels db' = db_rels db @ new \<and> distinct (map edge_of new)
            \<and> set (map edge_of new) \<inter> edge_of ` set (db_rels db) = {})
      \<and> (\<forall>r \<in> set (db_rels db).
            (src r = nid a \<longrightarrow> (nid b, rtype r, tgt r) \<in> edge_of ` set (db_rels db'))
          \<and> (tgt r = nid a \<longrightarrow> (src r, rtype r, nid b) \<in> edge_of ` set (db_rels db')))"
    using x(2,3) unfolding f(1) r3 rels dbx by blast
  with a' b' show "\<exists>a b. a \<in> set (db_nodes db) \<and> has_label ty a \<and> py_get (props a) ''id'' = source_id
         \<and> b \<in> set (db_nodes db) \<and> has_label ty b \<and> py_get (props b) ''id'' = target_id
         \<and> (\<exists>new. db_rels db' = db_rels db @ new \<and> distinct (map edge_of new)
               \<and> set (map edge_of new) \<inter> edge_of ` set (db_rels db) = {})
         \<and> (\<forall>r \<in> set (db_rels db).
               (src r = nid a \<longrightarrow> (nid b, rtype r, tgt r) \<in> edge_of ` set (db_rels db'))
             \<and> (tgt r = nid a \<longrightarrow> (src r, rtype r, nid b) \<in> edge_of ` set (db_rels db')))"
    by blast
qed



lemma merge_entities_persons_linked:
  "wf_graph persons_linked
   \<and> fst (merge_entities exact_engine (VStr ''p1'') (VStr ''p2'') ''Person''
      ''newer_wins'' (VStr ''2024-01-01T00:00:00'') (persons_linked, []))
    = Inr \<lparr>nid = 1, labels = [''Person''],
         props = [(''id'', VStr ''p2''), (''name'', VStr ''Alice Smith''), (''email'', VStr ''smith@x.com''),
                  (''merged_count'', VInt 1)]\<rparr>
   \<and> (1, ''AUTHORED'', 2) \<in> edge_of ` set (db_rels (fst (snd (merge_entities exact_engine (VStr ''p1'')
        (VStr ''p2'') ''Person'' ''newer_wins'' (VStr ''2024-01-01T00:00:00'') (persons_linked, [])))))
   \<and> (1, ''AFFILIATED_WITH'', 3) \<in> edge_of ` set (db_rels (fst (snd (merge_entities exact_engine (VStr ''p1'')
        (VStr ''p2'') ''Person'' ''newer_wins'' (VStr ''2024-01-01T00:00:00'') (persons_linked, [])))))
   \<and> (4, ''USER_KNOWS'', 1) \<in> edge_of ` set (db_rels (fst (snd (merge_entities exact_engine (VStr ''p1'')
        (VStr ''p2'') ''Person'' ''newer_wins'' (VStr ''2024-01-01T00:00:00'') (persons_linked, [])))))
   \<and> map edge_of (db_rels (fst (snd (merge_entities exact_engine (VStr ''p1'') (VStr ''p2'') ''Person''
        ''newer_wins'' (VStr ''2024-01-01T00:00:00'') (persons_linked, [])))))
      = [(0, ''AUTHORED'', 2), (1, ''AUTHORED'', 2), (0, ''AFFILIATED_WITH'', 3), (4, ''USER_KNOWS'', 0),
         (1, ''AFFILIATED_WITH'', 3), (4, ''USER_KNOWS'', 1)]"
proof -
  let ?run = "merge_entities exact_engine (VStr ''p1'') (VStr ''p2'') ''Person''
      ''newer_wins'' (VStr ''2024-01-01T00:00:00'') (persons_linked, [])"
  let ?kept = "\<lparr>nid = 1, labels = [''Person''],
         props = [(''id'', VStr ''p2''), (''name'', VStr ''Alice Smith''), (''email'', VStr ''smith@x.com''),
                  (''merged_count'', VInt 1)]\<rparr>"
  have wf: "wf_graph persons_linked"
    by (simp add: wf_graph_def persons_linked_def person_alice_def person_smith_def link_def py_get_def)
  have res: "fst ?run = Inr ?kept"
    by (simp add: merge_run persons_linked_def link_def node_of_def q_count_rels_def q_create_rel_def
        labelled_def py_getitem_def rel_props_of_def)
  have edges: "map edge_of (db_rels (fst (snd ?run)))
      = [(0, ''AUTHORED'', 2), (1, ''AUTHORED'', 2), (0, ''AFFILIATED_WITH'', 3), (4, ''USER_KNOWS'', 0),
         (1, ''AFFILIATED_WITH'', 3), (4, ''USER_KNOWS'', 1)]"
    by (simp add: merge_run persons_linked_def link_def node_of_def q_count_rels_def q_create_rel_def
        labelled_def py_getitem_def rel_props_of_def edge_of_def)
  have run: "?run = (Inr ?kept, (fst (snd ?run), snd (snd ?run)))"
    using res by (metis prod.collapse)
  from merge_entities_unique_ids [of persons_linked exact_engine "VStr ''p1''" "VStr ''p2''"
      "''Person''" "''newer_wins''" "VStr ''2024-01-01T00:00:00''" "[]" ?kept "fst (snd ?run)" "snd (snd ?run)"]
    wf run
  obtain a b where a: "a \<in> set (db_nodes persons_linked)" "py_get (props a) ''id'' = VStr ''p1''"
    and b: "b \<in> set (db_nodes persons_linked)" "py_get (props b) ''id'' = VStr ''p2''"
    and cover: "\<forall>r \<in> set (db_rels persons_linked).
               (src r = nid a \<longrightarrow> (nid b, rtype r, tgt r) \<in> edge_of ` set (db_rels (fst (snd ?run))))
             \<and> (tgt r = nid a \<longrightarrow> (src r, rtype r, nid b) \<in> edge_of ` set (db_rels (fst (snd ?run))))"
    by blast
  from a have na: "nid a = 0"
    by (auto simp: persons_linked_def person_alice_def person_smith_def py_get_def)
  from b have nb: "nid b = 1"
    by (auto simp: persons_linked_def person_alice_def person_smith_def py_get_def)
  have r10: "link 10 ''AUTHORED'' 0 2 \<in> set (db_rels persons_linked)"
    and r12: "link 12 ''AFFILIATED_WITH'' 0 3 \<in> set (db_rels persons_linked)"
    and r13: "link 13 ''USER_KNOWS'' 4 0 \<in> set (db_rels persons_linked)"
    by (simp_all add: persons_linked_def)
  from cover r10 na nb have e10: "(1, ''AUTHORED'', 2) \<in> edge_of ` set (db_rels (fst (snd ?run)))"
    by (fastforce simp: link_def)
  from cover r12 na nb have e12: "(1, ''AFFILIATED_WITH'', 3) \<in> edge_of ` set (db_rels (fst (snd ?run)))"
    by (fastforce simp: link_def)
  from cover r13 na nb have e13: "(4, ''USER_KNOWS'', 1) \<in> edge_of ` set (db_rels (fst (snd ?run)))"
    by (fastforce simp: link_def)
  from wf res e10 e12 e13 edges show ?thesis by blast
qed

lemma shared_id_store_content:
  "db_nodes shared_id_store
     = [\<lparr>nid = 0, labels = [''Person''], props = [(''id'', VStr ''p1'')]\<rparr>,
        \<lparr>nid = 1, labels = [''Person''], props = [(''id'', VStr ''p2'')]\<rparr>,
        \<lparr>nid = 2, labels = [''Person''], props = [(''id'', VStr ''x'')]\<rparr>,
        \<lparr>nid = 3, labels = [''Organization''], props = [(''id'', VStr ''x'')]\<rparr>]"
  "db_rels shared_id_store = [link 4 ''SAME_AS'' 0 2, link 5 ''SAME_AS'' 1 3]"
  by (simp_all add: shared_id_store_def empty_store_def create_node_def create_relationship_def
      NODE_TYPES_def RELATIONSHIP_TYPES_def validate_relationship_def match_pairs_def
      nodes_with_id_def set_props_def set_prop_def has_label_def cy_eq_def
      node_prop_def py_get_def py_getitem_def logq_def link_def Let_def)

text \<open>
  C5. A relationship of the source can be left behind. The store is built with the
  adapter's \<open>create_node\<close> and \<open>create_relationship\<close>: the persons \<open>p1\<close> and
  \<open>p2\<close>, a Person and an Organization that both have the id \<open>x\<close>, \<open>p1\<close> the same as
  the Person \<open>x\<close> and \<open>p2\<close> the same as the Organization \<open>x\<close>. The merge of \<open>p1\<close>
  into \<open>p2\<close> completes and returns \<open>p2\<close>, and the relationships are what they were:
  \<open>p2\<close> has no \<open>SAME_AS\<close> relationship to the Person \<open>x\<close>, the other end of the
  relationship of \<open>p1\<close>. The transfer looks for a relationship from the target entity
  to a node with the id of the other end, of any label, and finds the one to the
  Organization.
\<close>

theorem merge_entities_leaves_relationship_behind:
  "map edge_of (db_rels shared_id_store) = [(0, ''SAME_AS'', 2), (1, ''SAME_AS'', 3)]
   \<and> map labels (db_nodes shared_id_store) = [[''Person''], [''Person''], [''Person''], [''Organization'']]
   \<and> map (\<lambda>n. py_get (props n) ''id'') (db_nodes shared_id_store)
       = [VStr ''p1'', VStr ''p2'', VStr ''x'', VStr ''x'']
   \<and> fst (merge_entities exact_engine (VStr ''p1'') (VStr ''p2'') ''Person''
        ''newer_wins'' (VStr ''2024-01-01T00:00:00'') (shared_id_store, []))
       = Inr \<lparr>nid = 1, labels = [''Person''], props = [(''id'', VStr ''p2''), (''merged_count'', VInt 1)]\<rparr>
   \<and> map edge_of (db_rels (fst (snd (merge_entities exact_engine (VStr ''p1'') (VStr ''p2'') ''Person''
        ''newer_wins'' (VStr ''2024-01-01T00:00:00'') (shared_id_store, [])))))
       = [(0, ''SAME_AS'', 2), (1, ''SAME_AS'', 3)]
   \<and> (1, ''SAME_AS'', 2) \<notin> edge_of ` set (db_rels (fst (snd (merge_entities exact_engine (VStr ''p1'')
        (VStr ''p2'') ''Person'' ''newer_wins'' (VStr ''2024-01-01T00:00:00'') (shared_id_store, [])))))"
proof -
  let ?run = "merge_entities exact_engine (VStr ''p1'') (VStr ''p2'') ''Person''
      ''newer_wins'' (VStr ''2024-01-01T00:00:00'') (shared_id_store, [])"
  have store: "map edge_of (db_rels shared_id_store) = [(0, ''SAME_AS'', 2), (1, ''SAME_AS'', 3)]"
    "map labels (db_nodes shared_id_store) = [[''Person''], [''Person''], [''Person''], [''Organization'']]"
    "map (\<lambda>n. py_get (props n) ''id'') (db_nodes shared_id_store) = [VStr ''p1'', VStr ''p2'', VStr ''x'', VStr ''x'']"
    by (simp_all add: shared_id_store_content edge_of_def link_def py_get_def)
  have res: "fst ?run = Inr \<lparr>nid = 1, labels = [''Person''],
      props = [(''id'', VStr ''p2''), (''merged_count'', VInt 1)]\<rparr>"
    by (simp add: shared_id_store_content merge_run link_def node_of_def q_count_rels_def
        q_create_rel_def labelled_def py_getitem_def rel_props_of_def)
  have edges: "map edge_of (db_rels (fst (snd ?run))) = [(0, ''SAME_AS'', 2), (1, ''SAME_AS'', 3)]"
    by (simp add: shared_id_store_content merge_run link_def node_of_def q_count_rels_def
        q_create_rel_def labelled_def py_getitem_def rel_props_of_def edge_of_def)
  have absent: "(1, ''SAME_AS'', 2) \<notin> edge_of ` set (db_rels (fst (snd ?run)))"
    unfolding set_map [symmetric] edges by simp
  from store res edges absent show ?thesis by blast
qed

section \<open>Hybrid search and the operation cache\<close>








end
